theory Spec2Isabelle
  imports Main "HOL-Library.Log_Nat"
begin

section \<open>Python values and exceptions\<close>

text \<open>
  The model covers the imagery acquisition engine of \<^verbatim>\<open>gsview\<close>: the panorama crop
  algorithm of \<^verbatim>\<open>streetview.py\<close> (pure apart from the exceptions it can raise), the
  Street View client and the batch layer of \<^verbatim>\<open>downloader.py\<close> (state passing over a
  file system and a log of network calls).

  Every Python exception the modelled code can raise is a value; a function that can
  raise returns \<open>exn + 'a\<close> with \<open>Inl\<close> for the exception. \<open>exn_str\<close> is Python's
  \<^verbatim>\<open>str(e)\<close>. \<open>RequestException\<close> stands for \<^verbatim>\<open>requests.RequestException\<close> and
  its subclasses (timeouts, connection errors, HTTP errors), the only class the client's
  \<^verbatim>\<open>except requests.RequestException\<close> handler catches.
\<close>

datatype exn =
    ZeroDivisionError string
  | OverflowError string
  | ValueError string
  | RequestException string
  | OSError string
  | OtherException string

fun exn_str :: "exn \<Rightarrow> string" where
  "exn_str (ZeroDivisionError m) = m"
| "exn_str (OverflowError m) = m"
| "exn_str (ValueError m) = m"
| "exn_str (RequestException m) = m"
| "exn_str (OSError m) = m"
| "exn_str (OtherException m) = m"

definition bindE :: "exn + 'a \<Rightarrow> ('a \<Rightarrow> exn + 'b) \<Rightarrow> exn + 'b" where
  "bindE r f = (case r of Inl e \<Rightarrow> Inl e | Inr v \<Rightarrow> f v)"

section \<open>Python floats: IEEE 754 binary64 over the rationals\<close>

text \<open>
  The crop algorithm computes its pixel coordinates with float arithmetic
  (\<^verbatim>\<open>int((heading / 360.0) * w)\<close>), so a finite Python float is modelled as the rational
  it denotes and every operation rounds its exact result to the nearest binary64 value,
  ties to even: \<open>fl64\<close>. \<open>ilog2 x\<close> is the binary exponent \<open>\<lfloor>log\<^sub>2 x\<rfloor>\<close> of a positive
  rational, \<open>ulp_exp\<close> the exponent of the spacing of the doubles around \<open>x\<close> (53 significant
  bits, subnormals below \<open>2\<^sup>-\<^sup>1\<^sup>0\<^sup>2\<^sup>2\<close>), and \<open>rnd_grid k\<close> rounds to a multiple of \<open>2\<^sup>k\<close>.

  A result beyond the largest double is reported as \<open>OverflowError\<close>: in the expressions
  modelled here an infinity can only arise from a product and flows into \<^verbatim>\<open>int()\<close>, which
  raises \<^verbatim>\<open>OverflowError\<close>, as the conversion of a too large \<^verbatim>\<open>int\<close> does.
\<close>

definition round_half_even :: "rat \<Rightarrow> int" where
  "round_half_even x =
     (let f = \<lfloor>x\<rfloor>; d = x - of_int f
      in if d < 1/2 then f else if 1/2 < d then f + 1 else if even f then f else f + 1)"

definition ilog2 :: "rat \<Rightarrow> int" where
  "ilog2 x =
     (let (p, q) = quotient_of x; d = bitlen p - bitlen q
      in if 2 powi d \<le> x then d else d - 1)"

definition ulp_exp :: "rat \<Rightarrow> int" where
  "ulp_exp x = max (ilog2 \<bar>x\<bar>) (- 1022) - 52"

definition rnd_grid :: "int \<Rightarrow> rat \<Rightarrow> rat" where
  "rnd_grid k x = of_int (round_half_even (x / 2 powi k)) * 2 powi k"

definition fl64 :: "rat \<Rightarrow> rat" where
  "fl64 x = (if x = 0 then 0
             else let u = 2 powi (ulp_exp x) in of_int (round_half_even (x / u)) * u)"

definition max_float :: rat where
  "max_float = (2 ^ 53 - 1) * 2 ^ 971"

text \<open>A bound far below \<open>max_float\<close> under which no operation of the model overflows.\<close>

definition float_safe :: rat where
  "float_safe = 2 powi 1000"

definition float_result :: "rat \<Rightarrow> exn + rat" where
  "float_result x =
     (let r = fl64 x
      in if \<bar>r\<bar> \<le> max_float then Inr r else Inl (OverflowError ''float overflow''))"

text \<open>
  \<open>py_float\<close> is the implicit conversion of an \<^verbatim>\<open>int\<close> operand to \<^verbatim>\<open>float\<close>;
  \<open>py_fdiv\<close>, \<open>py_fmul\<close>, \<open>py_fsub\<close> are \<^verbatim>\<open>/\<close>, \<^verbatim>\<open>*\<close>, \<^verbatim>\<open>-\<close> on floats;
  \<open>py_truediv\<close> is \<^verbatim>\<open>/\<close> on two \<^verbatim>\<open>int\<close>s (the correctly rounded quotient);
  \<open>py_int\<close> is \<^verbatim>\<open>int(x)\<close> on a float, which truncates toward zero;
  \<open>py_mod\<close> is \<^verbatim>\<open>%\<close> on \<^verbatim>\<open>int\<close>s (the sign of the divisor, as \<open>mod\<close> on \<open>int\<close>).
\<close>

definition py_float :: "int \<Rightarrow> exn + rat" where
  "py_float n = float_result (of_int n)"

definition py_fdiv :: "rat \<Rightarrow> rat \<Rightarrow> exn + rat" where
  "py_fdiv a b =
     (if b = 0 then Inl (ZeroDivisionError ''float division by zero'') else float_result (a / b))"

definition py_fmul :: "rat \<Rightarrow> rat \<Rightarrow> exn + rat" where
  "py_fmul a b = float_result (a * b)"

definition py_fsub :: "rat \<Rightarrow> rat \<Rightarrow> exn + rat" where
  "py_fsub a b = float_result (a - b)"

definition py_truediv :: "int \<Rightarrow> int \<Rightarrow> exn + rat" where
  "py_truediv a b =
     (if b = 0 then Inl (ZeroDivisionError ''division by zero'')
      else float_result (of_int a / of_int b))"

definition py_int :: "rat \<Rightarrow> int" where
  "py_int x = (if 0 \<le> x then \<lfloor>x\<rfloor> else \<lceil>x\<rceil>)"

definition py_mod :: "int \<Rightarrow> int \<Rightarrow> exn + int" where
  "py_mod a b =
     (if b = 0 then Inl (ZeroDivisionError ''integer modulo by zero'') else Inr (a mod b))"

section \<open>The panorama crop algorithm\<close>

text \<open>
  \<^verbatim>\<open>_crop_panorama\<close> (streetview.py, lines 344 to 396). \<open>angle_scale angle full n\<close> is
  the float expression \<^verbatim>\<open>(angle / full) * n\<close> with \<^verbatim>\<open>angle\<close> and \<^verbatim>\<open>n\<close> integers and
  \<^verbatim>\<open>full\<close> the float literal \<^verbatim>\<open>360.0\<close> or \<^verbatim>\<open>180.0\<close>:
  \<^verbatim>\<open>
    center_x = int((heading / 360.0) * w) % w
    center_y = int(h / 2 - (pitch / 180.0) * h)
    crop_w = int((fov / 360.0) * w)
    crop_h = crop_w
    left = center_x - crop_w // 2
    right = center_x + crop_w // 2
    top = max(0, center_y - crop_h // 2)
    bottom = min(h, center_y + crop_h // 2)
  \<close>
  The field \<^verbatim>\<open>top\<close> is named \<open>top_y\<close> here (\<open>top\<close> is a constant of HOL).
\<close>

definition angle_scale :: "int \<Rightarrow> rat \<Rightarrow> int \<Rightarrow> exn + rat" where
  "angle_scale angle full n =
     bindE (py_float angle) (\<lambda>a.
     bindE (py_fdiv a full) (\<lambda>q.
     bindE (py_float n) (\<lambda>nf.
     py_fmul q nf)))"

definition center_x_of :: "int \<Rightarrow> int \<Rightarrow> exn + int" where
  "center_x_of w heading =
     bindE (angle_scale heading 360 w) (\<lambda>p. py_mod (py_int p) w)"

definition center_y_of :: "int \<Rightarrow> int \<Rightarrow> exn + int" where
  "center_y_of h pitch =
     bindE (py_truediv h 2) (\<lambda>half.
     bindE (angle_scale pitch 180 h) (\<lambda>p.
     bindE (py_fsub half p) (\<lambda>d.
     Inr (py_int d))))"

definition crop_w_of :: "int \<Rightarrow> int \<Rightarrow> exn + int" where
  "crop_w_of w fov = bindE (angle_scale fov 360 w) (\<lambda>p. Inr (py_int p))"

record crop_box =
  center_x :: int
  center_y :: int
  crop_w :: int
  crop_h :: int
  left :: int
  right :: int
  top_y :: int
  bottom :: int

definition crop_geometry :: "int \<Rightarrow> int \<Rightarrow> int \<Rightarrow> int \<Rightarrow> int \<Rightarrow> exn + crop_box" where
  "crop_geometry w h heading pitch fov =
     bindE (center_x_of w heading) (\<lambda>cx.
     bindE (center_y_of h pitch) (\<lambda>cy.
     bindE (crop_w_of w fov) (\<lambda>cw.
     let ch = cw
     in Inr \<lparr> center_x = cx, center_y = cy, crop_w = cw, crop_h = ch,
              left = cx - cw div 2, right = cx + cw div 2,
              top_y = max 0 (cy - ch div 2), bottom = min h (cy + ch div 2) \<rparr>)))"

text \<open>
  Images. A Pillow image is its size and its pixels, here rows of RGB triples;
  \<open>mk_image w h f\<close> is the \<open>w \<times> h\<close> image whose pixel at \<open>(x, y)\<close> is \<open>f x y\<close>, and
  \<open>getpixel\<close> reads a pixel, black outside the image. The three Pillow operations the
  algorithm calls are modelled from Pillow's documented behaviour:
  \<^item> \<^verbatim>\<open>Image.crop((l, t, r, b))\<close> returns the \<open>(r - l) \<times> (b - t)\<close> region, filled with
    black where the box leaves the image, and raises \<^verbatim>\<open>ValueError\<close> when \<open>r < l\<close> or
    \<open>b < t\<close>;
  \<^item> \<^verbatim>\<open>Image.new("RGB", (w, h))\<close> is a black image and raises \<^verbatim>\<open>ValueError\<close> for a
    negative size;
  \<^item> \<^verbatim>\<open>canvas.paste(im, (x0, y0))\<close> overwrites the part of the canvas that \<open>im\<close>
    covers when its upper left corner is put at \<open>(x0, y0)\<close>, clipped to the canvas.
  All images are taken to be in RGB mode, as the panoramas of the source are; the JPEG
  encoding of the saved file is not modelled.
\<close>

type_synonym pixel = "nat \<times> nat \<times> nat"

definition black :: pixel where
  "black = (0, 0, 0)"

record image =
  img_w :: int
  img_h :: int
  img_rows :: "pixel list list"

definition mk_image :: "int \<Rightarrow> int \<Rightarrow> (int \<Rightarrow> int \<Rightarrow> pixel) \<Rightarrow> image" where
  "mk_image w h f =
     \<lparr> img_w = w, img_h = h, img_rows = map (\<lambda>y. map (\<lambda>x. f x y) [0..w - 1]) [0..h - 1] \<rparr>"

definition getpixel :: "image \<Rightarrow> int \<Rightarrow> int \<Rightarrow> pixel" where
  "getpixel im x y =
     (if 0 \<le> x \<and> x < img_w im \<and> 0 \<le> y \<and> y < img_h im
         \<and> nat y < length (img_rows im) \<and> nat x < length (img_rows im ! nat y)
      then img_rows im ! nat y ! nat x else black)"

definition img_crop :: "image \<Rightarrow> int \<times> int \<times> int \<times> int \<Rightarrow> exn + image" where
  "img_crop im box =
     (case box of (l, t, r, b) \<Rightarrow>
        if r < l then Inl (ValueError ''Coordinate 'right' is less than 'left' '')
        else if b < t then Inl (ValueError ''Coordinate 'lower' is less than 'upper' '')
        else Inr (mk_image (r - l) (b - t) (\<lambda>x y. getpixel im (l + x) (t + y))))"

definition img_new :: "int \<times> int \<Rightarrow> exn + image" where
  "img_new sz =
     (case sz of (w, h) \<Rightarrow>
        if w < 0 \<or> h < 0 then Inl (ValueError ''Width and height must be >= 0'')
        else Inr (mk_image w h (\<lambda>x y. black)))"

definition img_paste :: "image \<Rightarrow> image \<Rightarrow> int \<times> int \<Rightarrow> image" where
  "img_paste canvas im pos =
     (case pos of (x0, y0) \<Rightarrow>
        mk_image (img_w canvas) (img_h canvas)
          (\<lambda>x y. if 0 \<le> x - x0 \<and> x - x0 < img_w im \<and> 0 \<le> y - y0 \<and> y - y0 < img_h im
                 then getpixel im (x - x0) (y - y0) else getpixel canvas x y))"

text \<open>
  The two branches of \<^verbatim>\<open>_crop_panorama\<close> (lines 383 to 396): \<open>wrap_compose\<close> is the
  body of \<^verbatim>\<open>if left < 0 or right > w:\<close>, which crops two parts and pastes them side by
  side on a new canvas of width \<^verbatim>\<open>crop_w\<close>; \<open>direct_crop\<close> is the final
  \<^verbatim>\<open>return img.crop((left, top, right, bottom))\<close>.
\<close>

definition wrap_compose :: "image \<Rightarrow> crop_box \<Rightarrow> exn + image" where
  "wrap_compose im g =
     (let w = img_w im
      in bindE (if left g < 0
                then bindE (img_crop im (w + left g, top_y g, w, bottom g)) (\<lambda>left_part.
                     bindE (img_crop im (0, top_y g, right g, bottom g)) (\<lambda>right_part.
                     Inr (left_part, right_part)))
                else bindE (img_crop im (left g, top_y g, w, bottom g)) (\<lambda>left_part.
                     bindE (img_crop im (0, top_y g, right g - w, bottom g)) (\<lambda>right_part.
                     Inr (left_part, right_part))))
           (\<lambda>(left_part, right_part).
              bindE (img_new (crop_w g, bottom g - top_y g)) (\<lambda>result.
              Inr (img_paste (img_paste result left_part (0, 0)) right_part
                     (img_w left_part, 0)))))"

definition direct_crop :: "image \<Rightarrow> crop_box \<Rightarrow> exn + image" where
  "direct_crop im g = img_crop im (left g, top_y g, right g, bottom g)"

definition crop_panorama :: "image \<Rightarrow> int \<Rightarrow> int \<Rightarrow> int \<Rightarrow> exn + image" where
  "crop_panorama im heading pitch fov =
     (let w = img_w im; h = img_h im
      in bindE (crop_geometry w h heading pitch fov) (\<lambda>g.
           if left g < 0 \<or> right g > w then wrap_compose im g else direct_crop im g))"

text \<open>A test panorama without black pixels: the pixel at \<open>(x, y)\<close> is \<open>(x, y, 255)\<close>.\<close>

definition test_image :: "int \<Rightarrow> int \<Rightarrow> image" where
  "test_image w h = mk_image w h (\<lambda>x y. (nat x, nat y, 255))"

section \<open>Strings: decimal formatting and the output file name\<close>

text \<open>
  The output file name is the f-string
  \<^verbatim>\<open>f"{location_id}_h{heading:03d}_p{pitch:+03d}.jpg"\<close>, written out four times in the
  source (streetview.py lines 245 and 486, downloader.py lines 116 and 233).
  \<open>format_d show_plus width n\<close> is Python's format specification \<^verbatim>\<open>0{width}d\<close>, with the
  \<^verbatim>\<open>+\<close> flag when \<open>show_plus\<close> holds: the sign, then zeros up to the width, then the decimal
  digits. \<open>path_join\<close> is \<^verbatim>\<open>str(output_dir / filename)\<close> for a directory written
  without a trailing separator and a file name that holds none.
\<close>

definition digit_char :: "nat \<Rightarrow> char" where
  "digit_char d = ''0123456789'' ! d"

fun dec_digits :: "nat \<Rightarrow> string" where
  "dec_digits n = (if n < 10 then [digit_char n] else dec_digits (n div 10) @ [digit_char (n mod 10)])"

declare dec_digits.simps [simp del]

definition format_d :: "bool \<Rightarrow> nat \<Rightarrow> int \<Rightarrow> string" where
  "format_d show_plus width n =
     (let sign = (if n < 0 then ''-'' else if show_plus then ''+'' else '''');
          ds = dec_digits (nat \<bar>n\<bar>)
      in sign @ replicate (width - length sign - length ds) CHR ''0'' @ ds)"

definition image_filename :: "string \<Rightarrow> int \<Rightarrow> int \<Rightarrow> string" where
  "image_filename location_id heading pitch =
     location_id @ ''_h'' @ format_d False 3 heading @ ''_p'' @ format_d True 3 pitch @ ''.jpg''"

definition path_join :: "string \<Rightarrow> string \<Rightarrow> string" where
  "path_join dir name = dir @ ''/'' @ name"

definition expected_file :: "string \<Rightarrow> string \<Rightarrow> int \<Rightarrow> int \<Rightarrow> string" where
  "expected_file output_dir location_id pitch h =
     path_join output_dir (image_filename location_id h pitch)"

fun contains :: "string \<Rightarrow> string \<Rightarrow> bool" where
  "contains s [] = (s = [])"
| "contains s (c # cs) = (take (length s) (c # cs) = s \<or> contains s cs)"

section \<open>The world: file system, network and panorama service\<close>

text \<open>
  The client and the batch layer act on a \<open>world\<close>: the set of files that exist and the
  log of the network calls made so far, oldest first. What the outside answers is given by
  an environment \<open>env\<close> of oracles; the answer of the network may depend on the calls
  made before:
  \<^item> \<open>env_api_key\<close>: the environment variable \<^verbatim>\<open>GOOGLE_STREETVIEW_API_KEY\<close>;
  \<^item> \<open>http_get\<close>: \<^verbatim>\<open>requests.get\<close>, which raises or returns a response;
  \<^item> \<open>find_panorama_by_id\<close> and \<open>get_panorama\<close>: the \<^verbatim>\<open>streetlevel\<close> library,
    each raising, returning \<^verbatim>\<open>None\<close> or returning a value;
  \<^item> \<open>write_file\<close>: creating the parent directories and writing a file at a path,
    \<open>None\<close> when it succeeds and the exception when it raises.
  The rate limiter (\<^verbatim>\<open>_wait_for_rate_limit\<close>) only sleeps; it has no effect on results,
  files or calls and is left out of the model.
\<close>

record http_response =
  status_code :: nat
  reason :: string
  url :: string
  content_type :: string
  json_body :: "(string \<rightharpoonup> string) option"
  content :: string

datatype call =
    MetadataGet rat rat string
  | ImageGet rat rat int int int string string
  | FindPanorama string
  | GetPanorama string int

record panorama =
  pano_ident :: string
  pano_lat :: rat
  pano_lon :: rat

record world =
  files :: "string set"
  calls :: "call list"

record env =
  env_api_key :: "string option"
  http_get :: "call list \<Rightarrow> call \<Rightarrow> exn + http_response"
  find_panorama_by_id :: "call list \<Rightarrow> string \<Rightarrow> exn + panorama option"
  get_panorama :: "call list \<Rightarrow> panorama \<Rightarrow> int \<Rightarrow> exn + image option"
  write_file :: "string \<Rightarrow> exn option"

definition log_call :: "call \<Rightarrow> world \<Rightarrow> world" where
  "log_call c w = w\<lparr> calls := calls w @ [c] \<rparr>"

definition add_file :: "string \<Rightarrow> world \<Rightarrow> world" where
  "add_file p w = w\<lparr> files := insert p (files w) \<rparr>"

text \<open>
  \<^verbatim>\<open>response.raise_for_status()\<close> raises \<^verbatim>\<open>HTTPError\<close>, a \<^verbatim>\<open>RequestException\<close>, for a
  status code from 400 to 599, with the message the \<^verbatim>\<open>requests\<close> library builds.
\<close>

definition raise_for_status :: "http_response \<Rightarrow> exn + unit" where
  "raise_for_status r =
     (if 400 \<le> status_code r \<and> status_code r < 500
      then Inl (RequestException (dec_digits (status_code r) @ '' Client Error: '' @ reason r
                                    @ '' for url: '' @ url r))
      else if 500 \<le> status_code r \<and> status_code r < 600
      then Inl (RequestException (dec_digits (status_code r) @ '' Server Error: '' @ reason r
                                    @ '' for url: '' @ url r))
      else Inr ())"

section \<open>Result records\<close>

text \<open>
  The dataclasses \<^verbatim>\<open>CoverageResult\<close> and \<^verbatim>\<open>ImageResult\<close> (streetview.py lines 19 to
  41), the rows of the input table, and the dictionaries the batch functions collect. Field
  names carry a prefix (\<open>cr_\<close>, \<open>ir_\<close>, \<open>loc_\<close>, \<open>cov_\<close>, \<open>dl_\<close>) because the source uses
  \<^verbatim>\<open>lat\<close>, \<^verbatim>\<open>lon\<close>, \<^verbatim>\<open>heading\<close>, \<^verbatim>\<open>pitch\<close> and \<^verbatim>\<open>pano_id\<close> in each of them. A
  \<^verbatim>\<open>pano_id\<close> cell that is missing, \<^verbatim>\<open>None\<close> or NaN is \<open>None\<close>.
\<close>

record CoverageResult =
  cr_lat :: rat
  cr_lon :: rat
  cr_has_coverage :: bool
  cr_pano_id :: "string option"
  cr_capture_date :: "string option"
  cr_status :: string

record ImageResult =
  ir_lat :: rat
  ir_lon :: rat
  ir_heading :: int
  ir_pitch :: int
  ir_success :: bool
  ir_image_path :: "string option"
  ir_error :: "string option"

record location =
  loc_location_id :: string
  loc_city :: string
  loc_lat :: rat
  loc_lon :: rat
  loc_pano_id :: "string option"

record coverage_record =
  cov_location_id :: string
  cov_city :: string
  cov_lat :: rat
  cov_lon :: rat
  cov_has_coverage :: bool
  cov_pano_id :: "string option"
  cov_capture_date :: "string option"
  cov_status :: string

record download_record =
  dl_location_id :: string
  dl_city :: string
  dl_lat :: rat
  dl_lon :: rat
  dl_heading :: int
  dl_pitch :: int
  dl_image_path :: "string option"
  dl_success :: bool
  dl_error :: "string option"

definition image_failure :: "rat \<Rightarrow> rat \<Rightarrow> int \<Rightarrow> int \<Rightarrow> string \<Rightarrow> ImageResult" where
  "image_failure lat lon heading pitch msg =
     \<lparr> ir_lat = lat, ir_lon = lon, ir_heading = heading, ir_pitch = pitch,
       ir_success = False, ir_image_path = None, ir_error = Some msg \<rparr>"

definition image_success :: "rat \<Rightarrow> rat \<Rightarrow> int \<Rightarrow> int \<Rightarrow> string \<Rightarrow> ImageResult" where
  "image_success lat lon heading pitch path =
     \<lparr> ir_lat = lat, ir_lon = lon, ir_heading = heading, ir_pitch = pitch,
       ir_success = True, ir_image_path = Some path, ir_error = None \<rparr>"

section \<open>The Street View client\<close>

text \<open>
  \<^verbatim>\<open>StreetViewClient.__init__\<close> (streetview.py lines 47 to 70):
  \<^verbatim>\<open>api_key or os.getenv(...)\<close>, and \<^verbatim>\<open>ValueError\<close> when no key is found.
\<close>

record client =
  api_key :: string
  rate_limit :: rat

definition new_client :: "env \<Rightarrow> string option \<Rightarrow> rat \<Rightarrow> exn + client" where
  "new_client e key rl =
     (let k = (case key of Some s \<Rightarrow> if s \<noteq> [] then Some s else env_api_key e
                         | None \<Rightarrow> env_api_key e)
      in case k of
           Some s \<Rightarrow> if s \<noteq> [] then Inr \<lparr> api_key = s, rate_limit = rl \<rparr>
                     else Inl (ValueError ''API key required. Set GOOGLE_STREETVIEW_API_KEY env var or pass api_key.'')
         | None \<Rightarrow> Inl (ValueError ''API key required. Set GOOGLE_STREETVIEW_API_KEY env var or pass api_key.''))"

text \<open>
  \<^verbatim>\<open>check_coverage\<close> (lines 79 to 118): one metadata request; an exception of
  \<^verbatim>\<open>requests.get\<close>, of \<^verbatim>\<open>raise_for_status\<close> or of \<^verbatim>\<open>response.json()\<close> propagates
  (there is no handler); otherwise \<^verbatim>\<open>status = data.get("status", "UNKNOWN")\<close> and
  \<^verbatim>\<open>has_coverage = status == "OK"\<close>.
\<close>

definition coverage_of_response :: "rat \<Rightarrow> rat \<Rightarrow> http_response \<Rightarrow> exn + CoverageResult" where
  "coverage_of_response lat lon resp =
     bindE (raise_for_status resp) (\<lambda>_.
       case json_body resp of
         None \<Rightarrow> Inl (RequestException ''Expecting value: line 1 column 1 (char 0)'')
       | Some data \<Rightarrow>
           let status = (case data ''status'' of None \<Rightarrow> ''UNKNOWN'' | Some s \<Rightarrow> s);
               has_coverage = (status = ''OK'')
           in Inr \<lparr> cr_lat = lat, cr_lon = lon, cr_has_coverage = has_coverage,
                    cr_pano_id = data ''pano_id'', cr_capture_date = data ''date'',
                    cr_status = status \<rparr>)"

definition check_coverage ::
  "env \<Rightarrow> client \<Rightarrow> rat \<Rightarrow> rat \<Rightarrow> world \<Rightarrow> (exn + CoverageResult) \<times> world" where
  "check_coverage e c lat lon w =
     (let rq = MetadataGet lat lon (api_key c)
      in (bindE (http_get e (calls w) rq) (coverage_of_response lat lon), log_call rq w))"

text \<open>
  \<^verbatim>\<open>download_image\<close> (lines 120 to 206): the request, the status check, the content
  type check and the file write stand in a \<^verbatim>\<open>try\<close> whose handler catches
  \<^verbatim>\<open>requests.RequestException\<close> only; any other exception (an \<^verbatim>\<open>OSError\<close> of the write)
  propagates.
\<close>

definition download_image ::
  "env \<Rightarrow> client \<Rightarrow> rat \<Rightarrow> rat \<Rightarrow> int \<Rightarrow> string \<Rightarrow> int \<Rightarrow> int \<Rightarrow> string \<Rightarrow> world
   \<Rightarrow> (exn + ImageResult) \<times> world" where
  "download_image e c lat lon heading output_path pitch fov sz w =
     (let rq = ImageGet lat lon heading pitch fov sz (api_key c);
          w1 = log_call rq w;
          body =
            (case http_get e (calls w) rq of
               Inl x \<Rightarrow> (Inl x, w1)
             | Inr resp \<Rightarrow>
                 (case raise_for_status resp of
                    Inl x \<Rightarrow> (Inl x, w1)
                  | Inr _ \<Rightarrow>
                      if \<not> contains ''image'' (content_type resp)
                      then (Inr (image_failure lat lon heading pitch
                                   (''Unexpected content type: '' @ content_type resp)), w1)
                      else (case write_file e output_path of
                              Some x \<Rightarrow> (Inl x, w1)
                            | None \<Rightarrow> (Inr (image_success lat lon heading pitch output_path),
                                       add_file output_path w1))))
      in case body of
           (Inl (RequestException m), w2) \<Rightarrow> (Inr (image_failure lat lon heading pitch m), w2)
         | r \<Rightarrow> r)"

text \<open>
  \<^verbatim>\<open>headings or [0, 90, 180, 270]\<close>: the default stands in for \<^verbatim>\<open>None\<close> and for the
  empty list.
\<close>

definition headings_or_default :: "int list option \<Rightarrow> int list" where
  "headings_or_default hs =
     (case hs of None \<Rightarrow> [0, 90, 180, 270]
               | Some l \<Rightarrow> if l = [] then [0, 90, 180, 270] else l)"

text \<open>
  \<^verbatim>\<open>download_location_images\<close> (lines 208 to 256): the loop over the headings, with
  \<^verbatim>\<open>download_image\<close>'s defaults \<^verbatim>\<open>fov=90\<close> and \<^verbatim>\<open>size="640x640"\<close>.
\<close>

fun location_images_loop ::
  "env \<Rightarrow> client \<Rightarrow> rat \<Rightarrow> rat \<Rightarrow> string \<Rightarrow> string \<Rightarrow> int \<Rightarrow> int list \<Rightarrow> ImageResult list
   \<Rightarrow> world \<Rightarrow> (exn + ImageResult list) \<times> world" where
  "location_images_loop e c lat lon location_id output_dir pitch [] results w = (Inr results, w)"
| "location_images_loop e c lat lon location_id output_dir pitch (heading # hs) results w =
     (let filename = image_filename location_id heading pitch;
          output_path = path_join output_dir filename
      in case download_image e c lat lon heading output_path pitch 90 ''640x640'' w of
           (Inl x, w1) \<Rightarrow> (Inl x, w1)
         | (Inr result, w1) \<Rightarrow>
             location_images_loop e c lat lon location_id output_dir pitch hs
               (results @ [result]) w1)"

definition download_location_images ::
  "env \<Rightarrow> client \<Rightarrow> rat \<Rightarrow> rat \<Rightarrow> string \<Rightarrow> string \<Rightarrow> int list option \<Rightarrow> int \<Rightarrow> world
   \<Rightarrow> (exn + ImageResult list) \<times> world" where
  "download_location_images e c lat lon location_id output_dir headings pitch w =
     location_images_loop e c lat lon location_id output_dir pitch
       (headings_or_default headings) [] w"

section \<open>The high-resolution fetcher\<close>

text \<open>
  \<^verbatim>\<open>download_location_hires\<close> (lines 399 to 516). Stage one resolves the panorama and
  fetches its bitmap inside one \<^verbatim>\<open>try\<close> with \<^verbatim>\<open>except Exception\<close>; each of its four
  failures returns one failure result per heading. Stage two crops and saves each heading
  inside its own \<^verbatim>\<open>try\<close> with \<^verbatim>\<open>except Exception\<close>: \<open>hires_heading\<close> is
  one round of that loop and \<open>hires_result\<close> the result it appends.
\<close>

definition hires_result ::
  "env \<Rightarrow> panorama \<Rightarrow> image \<Rightarrow> string \<Rightarrow> string \<Rightarrow> int \<Rightarrow> int \<Rightarrow> int \<Rightarrow> ImageResult" where
  "hires_result e pano pano_img location_id output_dir pitch fov heading =
     (let filename = image_filename location_id heading pitch;
          output_path = path_join output_dir filename
      in case crop_panorama pano_img heading pitch fov of
           Inl x \<Rightarrow> image_failure (pano_lat pano) (pano_lon pano) heading pitch (exn_str x)
         | Inr cropped \<Rightarrow>
             (case write_file e output_path of
                Some x \<Rightarrow> image_failure (pano_lat pano) (pano_lon pano) heading pitch (exn_str x)
              | None \<Rightarrow> image_success (pano_lat pano) (pano_lon pano) heading pitch output_path))"

definition hires_heading ::
  "env \<Rightarrow> panorama \<Rightarrow> image \<Rightarrow> string \<Rightarrow> string \<Rightarrow> int \<Rightarrow> int \<Rightarrow> int \<Rightarrow> world
   \<Rightarrow> ImageResult \<times> world" where
  "hires_heading e pano pano_img location_id output_dir pitch fov heading w =
     (let filename = image_filename location_id heading pitch;
          output_path = path_join output_dir filename
      in case crop_panorama pano_img heading pitch fov of
           Inl x \<Rightarrow> (image_failure (pano_lat pano) (pano_lon pano) heading pitch (exn_str x), w)
         | Inr cropped \<Rightarrow>
             (case write_file e output_path of
                Some x \<Rightarrow>
                  (image_failure (pano_lat pano) (pano_lon pano) heading pitch (exn_str x), w)
              | None \<Rightarrow>
                  (image_success (pano_lat pano) (pano_lon pano) heading pitch output_path,
                   add_file output_path w)))"

fun hires_loop ::
  "env \<Rightarrow> panorama \<Rightarrow> image \<Rightarrow> string \<Rightarrow> string \<Rightarrow> int \<Rightarrow> int \<Rightarrow> int list \<Rightarrow> ImageResult list
   \<Rightarrow> world \<Rightarrow> ImageResult list \<times> world" where
  "hires_loop e pano pano_img location_id output_dir pitch fov [] results w = (results, w)"
| "hires_loop e pano pano_img location_id output_dir pitch fov (heading # hs) results w =
     (case hires_heading e pano pano_img location_id output_dir pitch fov heading w of
        (result, w1) \<Rightarrow>
          hires_loop e pano pano_img location_id output_dir pitch fov hs (results @ [result]) w1)"

definition download_location_hires ::
  "env \<Rightarrow> string \<Rightarrow> string \<Rightarrow> string \<Rightarrow> int list option \<Rightarrow> int \<Rightarrow> int \<Rightarrow> int \<Rightarrow> world
   \<Rightarrow> ImageResult list \<times> world" where
  "download_location_hires e pano_id location_id output_dir headings pitch fov zoom w =
     (let hs = headings_or_default headings;
          w1 = log_call (FindPanorama pano_id) w
      in case find_panorama_by_id e (calls w) pano_id of
           Inl x \<Rightarrow> (map (\<lambda>heading. image_failure 0 0 heading pitch (exn_str x)) hs, w1)
         | Inr None \<Rightarrow>
             (map (\<lambda>heading. image_failure 0 0 heading pitch
                                (''Panorama not found: '' @ pano_id)) hs, w1)
         | Inr (Some pano) \<Rightarrow>
             (let w2 = log_call (GetPanorama (pano_ident pano) zoom) w1
              in case get_panorama e (calls w1) pano zoom of
                   Inl x \<Rightarrow> (map (\<lambda>heading. image_failure 0 0 heading pitch (exn_str x)) hs, w2)
                 | Inr None \<Rightarrow>
                     (map (\<lambda>heading. image_failure (pano_lat pano) (pano_lon pano) heading pitch
                                        ''Failed to download panorama'') hs, w2)
                 | Inr (Some pano_img) \<Rightarrow>
                     hires_loop e pano pano_img location_id output_dir pitch fov hs [] w2))"

section \<open>The batch layer\<close>

text \<open>
  \<^verbatim>\<open>check_coverage_batch\<close> (downloader.py lines 11 to 63). The loop body calls
  \<^verbatim>\<open>client.check_coverage\<close> with no \<^verbatim>\<open>try\<close> around it, so an exception leaves the
  loop and the function. With an \<^verbatim>\<open>output_path\<close> the table is written to a file.
\<close>

definition coverage_row :: "location \<Rightarrow> CoverageResult \<Rightarrow> coverage_record" where
  "coverage_row row result =
     \<lparr> cov_location_id = loc_location_id row, cov_city = loc_city row,
       cov_lat = loc_lat row, cov_lon = loc_lon row,
       cov_has_coverage = cr_has_coverage result, cov_pano_id = cr_pano_id result,
       cov_capture_date = cr_capture_date result, cov_status = cr_status result \<rparr>"

fun coverage_loop ::
  "env \<Rightarrow> client \<Rightarrow> location list \<Rightarrow> coverage_record list \<Rightarrow> world
   \<Rightarrow> (exn + coverage_record list) \<times> world" where
  "coverage_loop e c [] results w = (Inr results, w)"
| "coverage_loop e c (row # rows) results w =
     (case check_coverage e c (loc_lat row) (loc_lon row) w of
        (Inl x, w1) \<Rightarrow> (Inl x, w1)
      | (Inr result, w1) \<Rightarrow> coverage_loop e c rows (results @ [coverage_row row result]) w1)"

definition check_coverage_batch ::
  "env \<Rightarrow> location list \<Rightarrow> string option \<Rightarrow> string option \<Rightarrow> rat \<Rightarrow> world
   \<Rightarrow> (exn + coverage_record list) \<times> world" where
  "check_coverage_batch e locations output_path key rl w =
     (case new_client e key rl of
        Inl x \<Rightarrow> (Inl x, w)
      | Inr c \<Rightarrow>
          (case coverage_loop e c locations [] w of
             (Inl x, w1) \<Rightarrow> (Inl x, w1)
           | (Inr df, w1) \<Rightarrow>
               (case output_path of
                  None \<Rightarrow> (Inr df, w1)
                | Some p \<Rightarrow>
                    if p = [] then (Inr df, w1)
                    else (case write_file e p of
                            Some x \<Rightarrow> (Inl x, w1)
                          | None \<Rightarrow> (Inr df, add_file p w1)))))"

text \<open>
  The world of a run of the coverage loop: \<open>after_checks c rows w\<close> is \<open>w\<close> after one
  metadata request for each row of \<open>rows\<close>, in order. \<open>check_coverage\<close> logs its request
  and touches nothing else, so this is the world in which the loop makes the check of the
  next row.
\<close>

definition after_checks :: "client \<Rightarrow> location list \<Rightarrow> world \<Rightarrow> world" where
  "after_checks c rows w =
     w\<lparr> calls := calls w @ map (\<lambda>row. MetadataGet (loc_lat row) (loc_lon row) (api_key c)) rows \<rparr>"

text \<open>
  The download batches (downloader.py lines 66 to 160 and 163 to 278). \<open>skip_records\<close> are
  the rows synthesised when every expected file exists; \<open>result_records\<close> turns a
  fetcher's results into rows; \<open>no_pano_records\<close> are the rows of a location without
  panorama identifier (\<^verbatim>\<open>pd.isna(pano_id) or not pano_id\<close>, \<open>pano_missing\<close>). The
  \<^verbatim>\<open>output_dir.mkdir\<close> at the start of each batch creates a directory only and is
  left out.
\<close>

definition expected_files :: "string \<Rightarrow> string \<Rightarrow> int \<Rightarrow> int list \<Rightarrow> string list" where
  "expected_files output_dir location_id pitch headings =
     map (expected_file output_dir location_id pitch) headings"

definition all_exist :: "world \<Rightarrow> string list \<Rightarrow> bool" where
  "all_exist w fs = list_all (\<lambda>f. f \<in> files w) fs"

definition skip_records :: "location \<Rightarrow> string \<Rightarrow> int \<Rightarrow> int list \<Rightarrow> download_record list" where
  "skip_records row output_dir pitch headings =
     map (\<lambda>(h, f).
            \<lparr> dl_location_id = loc_location_id row, dl_city = loc_city row,
              dl_lat = loc_lat row, dl_lon = loc_lon row, dl_heading = h, dl_pitch = pitch,
              dl_image_path = Some f, dl_success = True, dl_error = None \<rparr>)
         (zip headings (expected_files output_dir (loc_location_id row) pitch headings))"

definition result_records :: "location \<Rightarrow> ImageResult list \<Rightarrow> download_record list" where
  "result_records row results =
     map (\<lambda>result.
            \<lparr> dl_location_id = loc_location_id row, dl_city = loc_city row,
              dl_lat = loc_lat row, dl_lon = loc_lon row, dl_heading = ir_heading result,
              dl_pitch = ir_pitch result, dl_image_path = ir_image_path result,
              dl_success = ir_success result, dl_error = ir_error result \<rparr>)
         results"

definition no_pano_records :: "location \<Rightarrow> int \<Rightarrow> int list \<Rightarrow> download_record list" where
  "no_pano_records row pitch headings =
     map (\<lambda>h.
            \<lparr> dl_location_id = loc_location_id row, dl_city = loc_city row,
              dl_lat = loc_lat row, dl_lon = loc_lon row, dl_heading = h, dl_pitch = pitch,
              dl_image_path = None, dl_success = False,
              dl_error = Some ''No pano_id available'' \<rparr>)
         headings"

definition images_batch_row ::
  "env \<Rightarrow> client \<Rightarrow> string \<Rightarrow> int list \<Rightarrow> int \<Rightarrow> bool \<Rightarrow> location \<Rightarrow> world
   \<Rightarrow> (exn + download_record list) \<times> world" where
  "images_batch_row e c output_dir headings pitch skip_existing row w =
     (if skip_existing
         \<and> all_exist w (expected_files output_dir (loc_location_id row) pitch headings)
      then (Inr (skip_records row output_dir pitch headings), w)
      else case download_location_images e c (loc_lat row) (loc_lon row) (loc_location_id row)
                  output_dir (Some headings) pitch w of
             (Inl x, w1) \<Rightarrow> (Inl x, w1)
           | (Inr results, w1) \<Rightarrow> (Inr (result_records row results), w1))"



definition pano_missing :: "string option \<Rightarrow> bool" where
  "pano_missing p = (case p of None \<Rightarrow> True | Some s \<Rightarrow> s = [])"

definition hires_batch_row ::
  "env \<Rightarrow> string \<Rightarrow> int list \<Rightarrow> int \<Rightarrow> int \<Rightarrow> int \<Rightarrow> bool \<Rightarrow> location \<Rightarrow> world
   \<Rightarrow> download_record list \<times> world" where
  "hires_batch_row e output_dir headings pitch fov zoom skip_existing row w =
     (case loc_pano_id row of
        None \<Rightarrow> (no_pano_records row pitch headings, w)
      | Some pano_id \<Rightarrow>
          if pano_id = [] then (no_pano_records row pitch headings, w)
          else if skip_existing
                  \<and> all_exist w (expected_files output_dir (loc_location_id row) pitch headings)
          then (skip_records row output_dir pitch headings, w)
          else case download_location_hires e pano_id (loc_location_id row) output_dir
                      (Some headings) pitch fov zoom w of
                 (results, w1) \<Rightarrow> (result_records row results, w1))"



section \<open>Test environments\<close>

text \<open>
  Concrete environments and inputs for the witnesses. \<open>ok_response data\<close> is a 200 response
  with a JSON body; \<open>image_response\<close> is a 200 response with a JPEG body. In \<open>test_env\<close>
  the metadata request for latitude 1 times out, the one for latitude 5 answers \<open>OK\<close>,
  every other metadata request answers \<open>ZERO_RESULTS\<close>, and every image request answers
  with an image; the panorama \<open>''pano1''\<close> resolves, \<open>''gone''\<close> is not found and any other
  identifier raises; the bitmap is an \<open>8 \<times> 4\<close> image, except that zoom 9 raises and zoom 8
  returns nothing; and every file can be written except heading 90 of location \<open>''b''\<close>.
\<close>

definition ok_response :: "(string \<rightharpoonup> string) \<Rightarrow> http_response" where
  "ok_response data =
     \<lparr> status_code = 200, reason = ''OK'', url = ''https://maps.googleapis.com/'',
       content_type = ''application/json'', json_body = Some data, content = [] \<rparr>"

definition image_response :: http_response where
  "image_response =
     \<lparr> status_code = 200, reason = ''OK'', url = ''https://maps.googleapis.com/'',
       content_type = ''image/jpeg'', json_body = None, content = ''JFIF'' \<rparr>"

definition test_pano :: panorama where
  "test_pano = \<lparr> pano_ident = ''pano1'', pano_lat = 3, pano_lon = 4 \<rparr>"

definition test_env :: env where
  "test_env =
     \<lparr> env_api_key = None,
       http_get = (\<lambda>hist rq. case rq of
                     MetadataGet lat lon k \<Rightarrow>
                       if lat = 1 then Inl (RequestException ''Read timed out.'')
                       else if lat = 5
                       then Inr (ok_response [''status'' \<mapsto> ''OK'', ''pano_id'' \<mapsto> ''pano1''])
                       else Inr (ok_response [''status'' \<mapsto> ''ZERO_RESULTS''])
                   | _ \<Rightarrow> Inr image_response),
       find_panorama_by_id = (\<lambda>hist p.
                     if p = ''pano1'' then Inr (Some test_pano)
                     else if p = ''gone'' then Inr None
                     else Inl (OtherException ''lookup failed'')),
       get_panorama = (\<lambda>hist p zoom.
                     if zoom = 9 then Inl (OtherException ''zoom not available'')
                     else if zoom = 8 then Inr None
                     else Inr (Some (test_image 8 4))),
       write_file = (\<lambda>p. if p = ''out/b_h090_p+00.jpg''
                           then Some (OSError ''No space left on device'') else None) \<rparr>"

text \<open>
  In \<open>flaky_env\<close> the network answers the first request that is made and times out on
  every later one, whatever is asked.
\<close>

definition flaky_env :: env where
  "flaky_env =
     test_env\<lparr> http_get := (\<lambda>hist rq. if hist = []
                                then Inr (ok_response [''status'' \<mapsto> ''ZERO_RESULTS''])
                                else Inl (RequestException ''Read timed out.'')) \<rparr>"

definition test_location :: "string \<Rightarrow> rat \<Rightarrow> string option \<Rightarrow> location" where
  "test_location name lat pano =
     \<lparr> loc_location_id = name, loc_city = ''Delhi'', loc_lat = lat, loc_lon = 77,
       loc_pano_id = pano \<rparr>"

definition empty_world :: world where
  "empty_world = \<lparr> files = {}, calls = [] \<rparr>"

section \<open>Facts about binary64 rounding\<close>

lemma rhe_cases: "round_half_even x = \<lfloor>x\<rfloor> \<or> round_half_even x = \<lfloor>x\<rfloor> + 1"
  by (simp add: round_half_even_def Let_def)

lemma rhe_of_int [simp]: "round_half_even (of_int n) = n"
  by (simp add: round_half_even_def Let_def)

lemma rhe_ge_floor: "\<lfloor>x\<rfloor> \<le> round_half_even x"
  using rhe_cases [of x] by linarith

lemma rhe_le_floor1: "round_half_even x \<le> \<lfloor>x\<rfloor> + 1"
  using rhe_cases [of x] by linarith

lemma rhe_mono: "x \<le> y \<Longrightarrow> round_half_even x \<le> round_half_even y"
proof -
  assume xy: "x \<le> y"
  have fl: "\<lfloor>x\<rfloor> \<le> \<lfloor>y\<rfloor>" using xy by (rule floor_mono)
  show ?thesis
  proof (cases "\<lfloor>x\<rfloor> = \<lfloor>y\<rfloor>")
    case True
    then have "x - of_int \<lfloor>x\<rfloor> \<le> y - of_int \<lfloor>y\<rfloor>" using xy by simp
    then show ?thesis using True
      by (auto simp: round_half_even_def Let_def)
  next
    case False
    then have "\<lfloor>x\<rfloor> + 1 \<le> \<lfloor>y\<rfloor>" using fl by linarith
    then show ?thesis using rhe_le_floor1 [of x] rhe_ge_floor [of y] by linarith
  qed
qed

lemma floor_minus_nonint:
  fixes x :: rat
  assumes "x \<noteq> of_int \<lfloor>x\<rfloor>"
  shows "\<lfloor>- x\<rfloor> = - \<lfloor>x\<rfloor> - 1"
proof -
  have "of_int \<lfloor>x\<rfloor> < x" using assms of_int_floor_le [of x] by linarith
  moreover have "x < of_int \<lfloor>x\<rfloor> + 1" by linarith
  ultimately show ?thesis by (simp add: floor_eq_iff)
qed

lemma rhe_minus: "round_half_even (- x) = - round_half_even x"
proof (cases "x = of_int \<lfloor>x\<rfloor>")
  case True
  then obtain n where "x = of_int n" ..
  then show ?thesis by (simp flip: of_int_minus)
next
  case False
  have c: "\<lfloor>- x\<rfloor> = - \<lfloor>x\<rfloor> - 1" using False by (rule floor_minus_nonint)
  have d: "x - of_int \<lfloor>x\<rfloor> < 1" by linarith
  have d0: "0 < x - of_int \<lfloor>x\<rfloor>" using False of_int_floor_le [of x] by linarith
  show ?thesis using d d0
    unfolding round_half_even_def Let_def c
    by (auto simp: algebra_simps)
qed


lemma fl64_grid: "fl64 x = rnd_grid (ulp_exp x) x"
  by (simp add: fl64_def rnd_grid_def Let_def round_half_even_def)

lemma rnd_grid_mono: "x \<le> y \<Longrightarrow> rnd_grid k x \<le> rnd_grid k y"
proof -
  assume "x \<le> y"
  then have "x / 2 powi k \<le> y / 2 powi k" by (simp add: divide_right_mono)
  then have "round_half_even (x / 2 powi k) \<le> round_half_even (y / 2 powi k)"
    by (rule rhe_mono)
  then have "(of_int (round_half_even (x / 2 powi k)) :: rat) \<le> of_int (round_half_even (y / 2 powi k))"
    by (simp only: of_int_le_iff)
  then show ?thesis unfolding rnd_grid_def by (rule mult_right_mono) simp
qed

lemma rnd_grid_fix: "rnd_grid k (of_int m * 2 powi k) = of_int m * 2 powi k"
  by (simp add: rnd_grid_def)

lemma rnd_grid_minus: "rnd_grid k (- x) = - rnd_grid k x"
  by (simp add: rnd_grid_def rhe_minus)

lemma grid_coarser:
  assumes "j \<le> k"
  shows "of_int m * (2::rat) powi k = of_int (m * 2 ^ nat (k - j)) * 2 powi j"
proof -
  have "(2::rat) powi k = 2 powi (k - j) * 2 powi j"
    by (simp flip: power_int_add)
  moreover have "(2::rat) powi (k - j) = 2 ^ nat (k - j)"
    using assms by (simp add: power_int_nonneg_exp)
  ultimately show ?thesis by simp
qed

lemma rnd_grid_fix_coarser:
  "j \<le> k \<Longrightarrow> rnd_grid j (of_int m * 2 powi k) = of_int m * 2 powi k"
  by (simp only: grid_coarser [of j k m] rnd_grid_fix)

lemma ilog2_bounds:
  assumes "0 < x"
  shows "2 powi (ilog2 x) \<le> x \<and> x < 2 powi (ilog2 x + 1)"
proof -
  obtain p q where pq: "quotient_of x = (p, q)" by force
  have q: "0 < q" using pq by (rule quotient_of_denom_pos)
  have x: "x = of_int p / of_int q" using pq by (rule quotient_of_div)
  have p: "0 < p" using assms q unfolding x by (simp add: zero_less_divide_iff)
  define d where "d = bitlen p - bitlen q"
  have bp: "2 ^ nat (bitlen p - 1) \<le> p" "p < 2 ^ nat (bitlen p)"
    using bitlen_bounds [OF p] by simp_all
  have bq: "2 ^ nat (bitlen q - 1) \<le> q" "q < 2 ^ nat (bitlen q)"
    using bitlen_bounds [OF q] by simp_all
  have lp: "0 < bitlen p"
  proof (rule ccontr)
    assume "\<not> 0 < bitlen p"
    then have "nat (bitlen p) = 0" by simp
    then show False using bp(2) p by simp
  qed
  have lq: "0 < bitlen q"
  proof (rule ccontr)
    assume "\<not> 0 < bitlen q"
    then have "nat (bitlen q) = 0" by simp
    then show False using bq(2) q by simp
  qed
  have rp: "(2::rat) powi (bitlen p - 1) \<le> of_int p" "of_int p < (2::rat) powi (bitlen p)"
  proof -
    have "(2::rat) powi (bitlen p - 1) = of_int (2 ^ nat (bitlen p - 1))"
      using lp by (simp add: power_int_nonneg_exp)
    then show "(2::rat) powi (bitlen p - 1) \<le> of_int p"
      using bp(1) by (simp only: of_int_le_iff)
    have "(2::rat) powi (bitlen p) = of_int (2 ^ nat (bitlen p))"
      using lp by (simp add: power_int_nonneg_exp)
    then show "of_int p < (2::rat) powi (bitlen p)"
      using bp(2) by (simp only: of_int_less_iff)
  qed
  have rq: "(2::rat) powi (bitlen q - 1) \<le> of_int q" "of_int q < (2::rat) powi (bitlen q)"
  proof -
    have "(2::rat) powi (bitlen q - 1) = of_int (2 ^ nat (bitlen q - 1))"
      using lq by (simp add: power_int_nonneg_exp)
    then show "(2::rat) powi (bitlen q - 1) \<le> of_int q"
      using bq(1) by (simp only: of_int_le_iff)
    have "(2::rat) powi (bitlen q) = of_int (2 ^ nat (bitlen q))"
      using lq by (simp add: power_int_nonneg_exp)
    then show "of_int q < (2::rat) powi (bitlen q)"
      using bq(2) by (simp only: of_int_less_iff)
  qed
  have qpos: "(0::rat) < of_int q" using q by simp
  have up: "x < 2 powi (d + 1)"
  proof -
    have "2 powi (d + 1) = (2::rat) powi (bitlen p) / 2 powi (bitlen q - 1)"
      unfolding d_def by (simp flip: power_int_diff add: algebra_simps)
    moreover have "of_int p / of_int q < (2::rat) powi (bitlen p) / 2 powi (bitlen q - 1)"
      using rp(2) rq(1) qpos
      by (intro frac_less) (simp_all add: p less_imp_le)
    ultimately show ?thesis unfolding x by simp
  qed
  have lo: "2 powi (d - 1) < x"
  proof -
    have "2 powi (d - 1) = (2::rat) powi (bitlen p - 1) / 2 powi (bitlen q)"
      unfolding d_def by (simp flip: power_int_diff add: algebra_simps)
    moreover have "(2::rat) powi (bitlen p - 1) / 2 powi (bitlen q) < of_int p / of_int q"
      using rp(1) rq(2) qpos
      by (intro frac_less2) simp_all
    ultimately show ?thesis unfolding x by simp
  qed
  have il: "ilog2 x = (if 2 powi d \<le> x then d else d - 1)"
    by (simp add: ilog2_def pq d_def Let_def)
  show ?thesis
  proof (cases "2 powi d \<le> x")
    case True
    then show ?thesis using up il by simp
  next
    case False
    then show ?thesis using lo il by (simp add: less_imp_le)
  qed
qed

lemma ilog2_less:
  assumes "0 < x" "x < 2 powi j"
  shows "ilog2 x < j"
proof (rule ccontr)
  assume "\<not> ilog2 x < j"
  then have "j \<le> ilog2 x" by simp
  then have "(2::rat) powi j \<le> 2 powi (ilog2 x)" by (intro power_int_increasing) simp_all
  then show False using ilog2_bounds [OF assms(1)] assms(2) by linarith
qed

lemma ilog2_ge:
  assumes "0 < x" "2 powi j \<le> x"
  shows "j \<le> ilog2 x"
proof (rule ccontr)
  assume "\<not> j \<le> ilog2 x"
  then have "ilog2 x + 1 \<le> j" by simp
  then have "(2::rat) powi (ilog2 x + 1) \<le> 2 powi j" by (intro power_int_increasing) simp_all
  then show False using ilog2_bounds [OF assms(1)] assms(2) by linarith
qed

lemma ilog2_mono: "0 < x \<Longrightarrow> x \<le> y \<Longrightarrow> ilog2 x \<le> ilog2 y"
  using ilog2_bounds [of x] ilog2_ge [of y "ilog2 x"] by simp

lemma ulp_exp_minus: "ulp_exp (- x) = ulp_exp x"
  by (simp add: ulp_exp_def)

lemma fl64_minus: "fl64 (- x) = - fl64 x"
  by (simp add: fl64_grid ulp_exp_minus rnd_grid_minus)

lemma fl64_zero [simp]: "fl64 0 = 0"
  by (simp add: fl64_def)

lemma fl64_nonneg: "0 \<le> x \<Longrightarrow> 0 \<le> fl64 x"
proof -
  assume "0 \<le> x"
  then have "rnd_grid (ulp_exp x) 0 \<le> rnd_grid (ulp_exp x) x" by (rule rnd_grid_mono)
  moreover have "rnd_grid (ulp_exp x) 0 = 0" using rnd_grid_fix [of "ulp_exp x" 0] by simp
  ultimately show ?thesis by (simp add: fl64_grid)
qed

lemma fl64_mono_pos:
  assumes "0 < x" "x \<le> y"
  shows "fl64 x \<le> fl64 y"
proof (cases "ulp_exp x = ulp_exp y")
  case True
  then show ?thesis using assms(2) by (simp add: fl64_grid rnd_grid_mono)
next
  case False
  have y: "0 < y" using assms by simp
  have le: "ilog2 x \<le> ilog2 y" using assms by (rule ilog2_mono)
  have ax: "\<bar>x\<bar> = x" "\<bar>y\<bar> = y" using assms by simp_all
  have lt: "ulp_exp x < ulp_exp y"
    using False le unfolding ulp_exp_def ax max_def by (auto split: if_splits)
  have ey: "ulp_exp y = ilog2 y - 52" "ilog2 x < ilog2 y" "- 1022 < ilog2 y"
    using lt le by (auto simp: ulp_exp_def ax max_def split: if_splits)
  define B :: rat where "B = 2 powi (ilog2 y)"
  have B1: "B = of_int 1 * 2 powi (ilog2 y)" by (simp add: B_def)
  have kx: "ulp_exp x \<le> ilog2 y" using ey by (simp add: ulp_exp_def ax)
  have ky: "ulp_exp y \<le> ilog2 y" using ey by simp
  have xB: "x \<le> B"
  proof -
    have "x < 2 powi (ilog2 x + 1)" using ilog2_bounds [OF assms(1)] by simp
    also have "\<dots> \<le> 2 powi (ilog2 y)" using ey by (intro power_int_increasing) simp_all
    finally show ?thesis by (simp add: B_def)
  qed
  have By: "B \<le> y" using ilog2_bounds [OF y] by (simp add: B_def)
  have "fl64 x \<le> rnd_grid (ulp_exp x) B" using xB by (simp add: fl64_grid rnd_grid_mono)
  also have "\<dots> = B" unfolding B1 using kx by (rule rnd_grid_fix_coarser)
  also have "\<dots> = rnd_grid (ulp_exp y) B" unfolding B1 using ky by (rule rnd_grid_fix_coarser [symmetric])
  also have "\<dots> \<le> fl64 y" using By by (simp add: fl64_grid rnd_grid_mono)
  finally show ?thesis .
qed

lemma fl64_mono: "x \<le> y \<Longrightarrow> fl64 x \<le> fl64 y"
proof -
  assume xy: "x \<le> y"
  consider "0 < x" | "x \<le> 0" "0 \<le> y" | "y < 0" by linarith
  then show ?thesis
  proof cases
    case 1
    then show ?thesis using xy by (rule fl64_mono_pos)
  next
    case 2
    have "fl64 x \<le> 0" using fl64_nonneg [of "- x"] 2(1) by (simp add: fl64_minus)
    then show ?thesis using fl64_nonneg [OF 2(2)] by linarith
  next
    case 3
    have "fl64 (- y) \<le> fl64 (- x)" using 3 xy by (intro fl64_mono_pos) simp_all
    then show ?thesis by (simp add: fl64_minus)
  qed
qed

lemma fl64_exact_pos:
  assumes m: "0 < m" "m < 2 ^ 53" and k: "- 1074 \<le> k"
  shows "fl64 (of_int m * 2 powi k) = of_int m * 2 powi k"
proof -
  define x :: rat where "x = of_int m * 2 powi k"
  have xpos: "0 < x" using m by (simp add: x_def)
  have "of_int m < (2::rat) powi 53"
  proof -
    have "(of_int m :: rat) < of_int (2 ^ 53)" using m(2) by (simp only: of_int_less_iff)
    then show ?thesis by simp
  qed
  then have "x < 2 powi 53 * 2 powi k" unfolding x_def
    by (intro mult_strict_right_mono) simp_all
  also have "\<dots> = 2 powi (53 + k)" by (simp add: power_int_add)
  finally have "ilog2 x < 53 + k" using xpos by (intro ilog2_less) simp_all
  then have "ulp_exp x \<le> k" using k xpos by (simp add: ulp_exp_def)
  then have "rnd_grid (ulp_exp x) (of_int m * 2 powi k) = of_int m * 2 powi k"
    by (rule rnd_grid_fix_coarser)
  then show ?thesis by (simp add: fl64_grid x_def)
qed

lemma fl64_exact:
  assumes "\<bar>m\<bar> < 2 ^ 53" "- 1074 \<le> k"
  shows "fl64 (of_int m * 2 powi k) = of_int m * 2 powi k"
proof -
  consider "0 < m" | "m = 0" | "m < 0" by linarith
  then show ?thesis
  proof cases
    case 1
    then show ?thesis using assms by (intro fl64_exact_pos) simp_all
  next
    case 2
    then show ?thesis by simp
  next
    case 3
    then have "fl64 (of_int (- m) * 2 powi k) = of_int (- m) * 2 powi k"
      using assms by (intro fl64_exact_pos) simp_all
    then show ?thesis by (simp add: fl64_minus)
  qed
qed

lemma fl64_of_int: "\<bar>m\<bar> < 2 ^ 53 \<Longrightarrow> fl64 (of_int m) = of_int m"
  using fl64_exact [of m 0] by simp

lemma fl64_abs_le:
  assumes "\<bar>x\<bar> \<le> of_int m * 2 powi k" "\<bar>m\<bar> < 2 ^ 53" "- 1074 \<le> k"
  shows "\<bar>fl64 x\<bar> \<le> of_int m * 2 powi k"
proof -
  let ?B = "of_int m * (2::rat) powi k"
  have B: "fl64 ?B = ?B" using assms(2,3) by (rule fl64_exact)
  have "x \<le> ?B" "- ?B \<le> x" using assms(1) by linarith+
  then have "fl64 x \<le> fl64 ?B" "fl64 (- ?B) \<le> fl64 x" by (simp_all add: fl64_mono)
  then show ?thesis by (simp add: fl64_minus B abs_le_iff)
qed

lemma float_safe_exact: "float_safe = of_int 1 * 2 powi 1000"
  by (simp add: float_safe_def)

lemma float_safe_le_max: "float_safe \<le> max_float"
proof -
  have a: "(2::rat) ^ 29 \<le> 2 ^ 53 - 1" by simp
  have "float_safe = (2::rat) ^ 29 * 2 ^ 971"
    unfolding float_safe_def by (simp only: power_int_numeral flip: power_add) simp
  also have "\<dots> \<le> (2 ^ 53 - 1) * 2 ^ 971"
    using a by (rule mult_right_mono) simp
  finally show ?thesis by (simp only: max_float_def)
qed

lemma two53_le_safe: "(2::rat) ^ 53 \<le> float_safe"
proof -
  have "(2::rat) powi 53 \<le> 2 powi 1000" by (rule power_int_increasing) simp_all
  then show ?thesis by (simp only: float_safe_def power_int_numeral)
qed

lemma two106_le_safe: "(2::rat) ^ 53 * 2 ^ 53 + 2 ^ 53 \<le> float_safe"
proof -
  have "(2::rat) ^ 53 * 2 ^ 53 + 2 ^ 53 \<le> 2 ^ 107" by simp
  also have "\<dots> = (2::rat) powi 107" by simp
  also have "\<dots> \<le> 2 powi 1000" by (rule power_int_increasing) simp_all
  finally show ?thesis by (simp only: float_safe_def)
qed

lemma prod53_le_safe: "(2::rat) ^ 53 * 2 ^ 53 \<le> float_safe"
proof -
  have "(2::rat) ^ 53 * 2 ^ 53 \<le> 2 ^ 53 * 2 ^ 53 + 2 ^ 53" by simp
  then show ?thesis using two106_le_safe by (rule order_trans)
qed

lemma float_result_ok: "\<bar>x\<bar> \<le> float_safe \<Longrightarrow> float_result x = Inr (fl64 x)"
proof -
  assume "\<bar>x\<bar> \<le> float_safe"
  then have "\<bar>x\<bar> \<le> of_int 1 * 2 powi 1000" by (simp only: float_safe_exact)
  then have "\<bar>fl64 x\<bar> \<le> of_int 1 * 2 powi 1000" by (rule fl64_abs_le) simp_all
  then have "\<bar>fl64 x\<bar> \<le> float_safe" by (simp only: float_safe_exact)
  then have "\<bar>fl64 x\<bar> \<le> max_float" using float_safe_le_max by (rule order_trans)
  then show ?thesis by (simp add: float_result_def Let_def)
qed

lemma float_result_dyadic:
  assumes "\<bar>m\<bar> < 2 ^ 53" "j \<le> 1074"
  shows "float_result (of_int m / 2 ^ j) = Inr (of_int m / 2 ^ j)"
proof -
  have e: "(of_int m :: rat) / 2 ^ j = of_int m * 2 powi (- int j)"
    by (simp add: power_int_minus field_simps)
  have x: "fl64 (of_int m / 2 ^ j) = of_int m / 2 ^ j"
    unfolding e using assms by (intro fl64_exact) simp_all
  have "\<bar>(of_int m :: rat)\<bar> < of_int (2 ^ 53)"
    using assms(1) by (simp only: of_int_less_iff flip: of_int_abs)
  then have m: "\<bar>(of_int m :: rat)\<bar> \<le> 2 ^ 53" by simp
  have "\<bar>(of_int m :: rat) / 2 ^ j\<bar> = \<bar>of_int m\<bar> / 2 ^ j" by simp
  also have "\<dots> \<le> \<bar>of_int m\<bar> / 1" by (rule divide_left_mono) simp_all
  finally have "\<bar>(of_int m :: rat) / 2 ^ j\<bar> \<le> float_safe"
    using m two53_le_safe by linarith
  then show ?thesis using x by (simp add: float_result_ok)
qed

lemma py_float_exact: "\<bar>n\<bar> < 2 ^ 53 \<Longrightarrow> py_float n = Inr (of_int n)"
  using float_result_dyadic [of n 0] by (simp add: py_float_def)

lemma py_truediv_half: "\<bar>n\<bar> < 2 ^ 53 \<Longrightarrow> py_truediv n 2 = Inr (of_int n / 2)"
  using float_result_dyadic [of n 1] by (simp add: py_truediv_def)

lemma of_int_abs_bound:
  assumes "\<bar>n\<bar> < 2 ^ 53"
  shows "\<bar>(of_int n :: rat)\<bar> \<le> 2 ^ 53"
proof -
  have "\<bar>(of_int n :: rat)\<bar> < of_int (2 ^ 53)"
    using assms by (simp only: of_int_less_iff flip: of_int_abs)
  then show ?thesis by simp
qed

lemma fl64_abs_le_two53: "\<bar>x\<bar> \<le> 2 ^ 53 \<Longrightarrow> \<bar>fl64 x\<bar> \<le> 2 ^ 53"
  using fl64_abs_le [of x 1 53] by simp

lemma angle_scale_ok:
  assumes a: "\<bar>angle\<bar> < 2 ^ 53" and n: "\<bar>n\<bar> < 2 ^ 53" and f: "1 \<le> full"
  shows "angle_scale angle full n = Inr (fl64 (fl64 (of_int angle / full) * of_int n))"
proof -
  have ab: "\<bar>(of_int angle :: rat)\<bar> \<le> 2 ^ 53" using a by (rule of_int_abs_bound)
  have nb: "\<bar>(of_int n :: rat)\<bar> \<le> 2 ^ 53" using n by (rule of_int_abs_bound)
  have "\<bar>of_int angle / full\<bar> = \<bar>of_int angle\<bar> / full" using f by simp
  also have "\<dots> \<le> \<bar>of_int angle\<bar> / 1" using f by (intro divide_left_mono) simp_all
  finally have qb: "\<bar>of_int angle / full\<bar> \<le> 2 ^ 53" using ab by simp
  then have q1: "float_result (of_int angle / full) = Inr (fl64 (of_int angle / full))"
    using two53_le_safe by (intro float_result_ok) linarith
  have qf: "\<bar>fl64 (of_int angle / full)\<bar> \<le> 2 ^ 53" using qb by (rule fl64_abs_le_two53)
  have "\<bar>fl64 (of_int angle / full) * of_int n\<bar> \<le> 2 ^ 53 * 2 ^ 53"
    unfolding abs_mult using qf nb by (intro mult_mono) simp_all
  then have p1: "float_result (fl64 (of_int angle / full) * of_int n)
                 = Inr (fl64 (fl64 (of_int angle / full) * of_int n))"
    by (intro float_result_ok order_trans [OF _ prod53_le_safe])
  show ?thesis
    using f q1 p1
    by (simp add: angle_scale_def bindE_def py_float_exact [OF a] py_float_exact [OF n]
        py_fdiv_def py_fmul_def)
qed

section \<open>Facts about the crop geometry and the image operations\<close>

lemma fl64_dyadic:
  assumes "\<bar>m\<bar> < 2 ^ 53" "j \<le> 1074"
  shows "fl64 (of_int m / 2 ^ j) = of_int m / 2 ^ j"
  using float_result_dyadic [OF assms] float_result_ok [of "of_int m / 2 ^ j"]
  by (auto simp: float_result_def Let_def split: if_splits)

lemma fl64_abs_le_pow: "\<bar>x\<bar> \<le> 2 ^ n \<Longrightarrow> \<bar>fl64 x\<bar> \<le> 2 ^ n"
  using fl64_abs_le [of x 1 "int n"] by simp

lemma py_int_nonneg: "0 \<le> x \<Longrightarrow> 0 \<le> py_int x"
  by (simp add: py_int_def)

lemma py_int_le: "0 \<le> x \<Longrightarrow> x \<le> of_int n \<Longrightarrow> py_int x \<le> n"
  by (simp add: py_int_def floor_le_iff)

lemma py_int_of_int [simp]: "py_int (of_int n) = n"
  by (simp add: py_int_def)

lemma center_x_of_ok:
  assumes "\<bar>heading\<bar> < 2 ^ 53" "\<bar>w\<bar> < 2 ^ 53" "w \<noteq> 0"
  shows "center_x_of w heading
         = Inr (py_int (fl64 (fl64 (of_int heading / 360) * of_int w)) mod w)"
  using assms by (simp add: center_x_of_def angle_scale_ok bindE_def py_mod_def)

lemma crop_w_of_ok:
  assumes "\<bar>fov\<bar> < 2 ^ 53" "\<bar>w\<bar> < 2 ^ 53"
  shows "crop_w_of w fov = Inr (py_int (fl64 (fl64 (of_int fov / 360) * of_int w)))"
  using assms by (simp add: crop_w_of_def angle_scale_ok bindE_def)

lemma center_y_of_ok:
  assumes p: "\<bar>pitch\<bar> < 2 ^ 53" and h: "\<bar>h\<bar> < 2 ^ 53"
  shows "center_y_of h pitch
         = Inr (py_int (fl64 (of_int h / 2 - fl64 (fl64 (of_int pitch / 180) * of_int h))))"
proof -
  let ?q = "fl64 (of_int pitch / 180)"
  let ?p = "fl64 (?q * of_int h)"
  have pb: "\<bar>(of_int pitch :: rat)\<bar> \<le> 2 ^ 53" using p by (rule of_int_abs_bound)
  have hb: "\<bar>(of_int h :: rat)\<bar> \<le> 2 ^ 53" using h by (rule of_int_abs_bound)
  have "\<bar>(of_int pitch :: rat) / 180\<bar> \<le> \<bar>of_int pitch\<bar> / 1"
    unfolding abs_divide by (intro divide_left_mono) simp_all
  then have "\<bar>(of_int pitch :: rat) / 180\<bar> \<le> 2 ^ 53" using pb by simp
  then have qb: "\<bar>?q\<bar> \<le> 2 ^ 53" by (rule fl64_abs_le_pow)
  have "\<bar>?q * of_int h\<bar> \<le> 2 ^ 53 * 2 ^ 53"
    unfolding abs_mult using qb hb by (intro mult_mono) simp_all
  then have "\<bar>?q * of_int h\<bar> \<le> 2 ^ 106" by simp
  then have "\<bar>?p\<bar> \<le> 2 ^ 106" by (rule fl64_abs_le_pow)
  then have pb2: "\<bar>?p\<bar> \<le> 2 ^ 53 * 2 ^ 53" by simp
  have "\<bar>(of_int h :: rat) / 2\<bar> \<le> \<bar>of_int h\<bar> / 1"
    unfolding abs_divide by (intro divide_left_mono) simp_all
  then have hh: "\<bar>(of_int h :: rat) / 2\<bar> \<le> 2 ^ 53" using hb by simp
  have "\<bar>of_int h / 2 - ?p\<bar> \<le> \<bar>of_int h / 2\<bar> + \<bar>?p\<bar>" by (rule abs_triangle_ineq4)
  also have "\<dots> \<le> 2 ^ 53 * 2 ^ 53 + 2 ^ 53" using hh pb2 by linarith
  finally have "\<bar>of_int h / 2 - ?p\<bar> \<le> float_safe"
    using two106_le_safe by (rule order_trans)
  then have "float_result (of_int h / 2 - ?p) = Inr (fl64 (of_int h / 2 - ?p))"
    by (rule float_result_ok)
  then show ?thesis
    using p h
    by (simp add: center_y_of_def py_truediv_half angle_scale_ok bindE_def py_fsub_def)
qed

lemma crop_geometry_ok:
  assumes "\<bar>heading\<bar> < 2 ^ 53" "\<bar>pitch\<bar> < 2 ^ 53" "\<bar>fov\<bar> < 2 ^ 53"
    "\<bar>w\<bar> < 2 ^ 53" "w \<noteq> 0" "\<bar>h\<bar> < 2 ^ 53"
  shows "crop_geometry w h heading pitch fov =
     (let cx = py_int (fl64 (fl64 (of_int heading / 360) * of_int w)) mod w;
          cy = py_int (fl64 (of_int h / 2 - fl64 (fl64 (of_int pitch / 180) * of_int h)));
          cw = py_int (fl64 (fl64 (of_int fov / 360) * of_int w))
      in Inr \<lparr> center_x = cx, center_y = cy, crop_w = cw, crop_h = cw,
               left = cx - cw div 2, right = cx + cw div 2,
               top_y = max 0 (cy - cw div 2), bottom = min h (cy + cw div 2) \<rparr>)"
  using assms
  by (simp add: crop_geometry_def center_x_of_ok center_y_of_ok crop_w_of_ok bindE_def Let_def)

lemma crop_geometry_fields:
  assumes "crop_geometry w h heading pitch fov = Inr g"
  shows "left g = center_x g - crop_w g div 2"
    and "right g = center_x g + crop_w g div 2"
    and "top_y g = max 0 (center_y g - crop_h g div 2)"
    and "bottom g = min h (center_y g + crop_h g div 2)"
    and "crop_h g = crop_w g"
    and "center_x_of w heading = Inr (center_x g)"
    and "center_y_of h pitch = Inr (center_y g)"
    and "crop_w_of w fov = Inr (crop_w g)"
  using assms
  by (auto simp: crop_geometry_def bindE_def Let_def split: sum.splits)

lemma center_x_range:
  assumes "center_x_of w heading = Inr cx" "0 < w"
  shows "0 \<le> cx \<and> cx < w"
  using assms
  by (auto simp: center_x_of_def bindE_def py_mod_def split: sum.splits if_splits)

lemma center_x_heading_0_360:
  assumes "\<bar>w\<bar> < 2 ^ 53"
  shows "center_x_of w 0 = center_x_of w 360"
    and "w \<noteq> 0 \<Longrightarrow> center_x_of w 0 = Inr 0"
proof -
  have a0: "angle_scale 0 360 w = Inr 0"
    using angle_scale_ok [of 0 w 360] assms by simp
  have one: "fl64 1 = 1" using fl64_of_int [of 1] by simp
  have "fl64 (of_int w) = of_int w" using assms by (rule fl64_of_int)
  then have a360: "angle_scale 360 360 w = Inr (of_int w)"
    using angle_scale_ok [of 360 w 360] assms by (simp add: one)
  show "center_x_of w 0 = center_x_of w 360"
    by (simp add: center_x_of_def a0 a360 bindE_def py_mod_def py_int_def)
  show "w \<noteq> 0 \<Longrightarrow> center_x_of w 0 = Inr 0"
    by (simp add: center_x_of_def a0 bindE_def py_mod_def py_int_def)
qed

lemma fl64_half: "fl64 (1 / 2) = 1 / 2"
  using fl64_dyadic [of 1 1] by simp

lemma center_y_range:
  assumes p: "- 90 \<le> pitch" "pitch \<le> 90" and h: "0 \<le> h" "h < 2 ^ 53"
  shows "\<exists>cy. center_y_of h pitch = Inr cy \<and> 0 \<le> cy \<and> cy \<le> h"
proof -
  let ?q = "fl64 (of_int pitch / 180)"
  let ?p = "fl64 (?q * of_int h)"
  let ?d = "fl64 (of_int h / 2 - ?p)"
  have ha: "\<bar>h\<bar> < 2 ^ 53" using h by simp
  have pa: "\<bar>pitch\<bar> < 2 ^ 53" using p by simp
  have "(of_int pitch :: rat) \<le> of_int 90" "(of_int (- 90) :: rat) \<le> of_int pitch"
    using p by (simp_all only: of_int_le_iff)
  then have "\<bar>(of_int pitch :: rat) / 180\<bar> \<le> of_int 1 * 2 powi (- 1)"
    by (simp add: power_int_minus abs_le_iff)
  then have "\<bar>?q\<bar> \<le> of_int 1 * 2 powi (- 1)" by (rule fl64_abs_le) simp_all
  then have q: "\<bar>?q\<bar> \<le> 1 / 2" by (simp add: power_int_minus)
  have h0: "(0::rat) \<le> of_int h" using h by simp
  have "\<bar>?q * of_int h\<bar> = \<bar>?q\<bar> * of_int h" using h0 by (simp add: abs_mult)
  also have "\<dots> \<le> 1 / 2 * of_int h" using q h0 by (rule mult_right_mono)
  finally have "\<bar>?q * of_int h\<bar> \<le> of_int h * 2 powi (- 1)"
    by (simp add: power_int_minus)
  then have "\<bar>?p\<bar> \<le> of_int h * 2 powi (- 1)" using ha by (rule fl64_abs_le) simp
  then have pb: "\<bar>?p\<bar> \<le> of_int h / 2" by (simp add: power_int_minus)
  have d0: "0 \<le> ?d" using pb by (intro fl64_nonneg) linarith
  have "?d \<le> fl64 (of_int h)" using pb by (intro fl64_mono) linarith
  then have d1: "?d \<le> of_int h" using ha by (simp add: fl64_of_int)
  show ?thesis
    using d0 d1 by (simp add: center_y_of_ok [OF pa ha] py_int_nonneg py_int_le)
qed

lemma crop_w_nonneg:
  assumes f: "0 \<le> fov" "fov < 2 ^ 53" and w: "0 \<le> w" "w < 2 ^ 53"
  shows "\<exists>cw. crop_w_of w fov = Inr cw \<and> 0 \<le> cw"
proof -
  have "0 \<le> fl64 (of_int fov / 360)" using f by (intro fl64_nonneg) simp
  moreover have "(0::rat) \<le> of_int w" using w by simp
  ultimately have "0 \<le> fl64 (of_int fov / 360) * of_int w" by (rule mult_nonneg_nonneg)
  then have "0 \<le> fl64 (fl64 (of_int fov / 360) * of_int w)" by (rule fl64_nonneg)
  then show ?thesis using f w by (simp add: crop_w_of_ok py_int_nonneg)
qed

lemma img_w_mk_image [simp]: "img_w (mk_image w h f) = w"
  by (simp add: mk_image_def)

lemma img_h_mk_image [simp]: "img_h (mk_image w h f) = h"
  by (simp add: mk_image_def)

lemma getpixel_mk_image:
  "getpixel (mk_image w h f) x y
   = (if 0 \<le> x \<and> x < w \<and> 0 \<le> y \<and> y < h then f x y else black)"
proof (cases "0 \<le> x \<and> x < w \<and> 0 \<le> y \<and> y < h")
  case True
  then have ly: "nat y < length [0..h - 1]" and lx: "nat x < length [0..w - 1]" by simp_all
  have ny: "[0..h - 1] ! nat y = y" using True by simp
  have nx: "[0..w - 1] ! nat x = x" using True by simp
  show ?thesis using True ly lx by (simp add: getpixel_def mk_image_def ny nx)
next
  case False
  then show ?thesis by (auto simp: getpixel_def)
qed

lemma mk_image_cong:
  assumes "\<And>x y. 0 \<le> x \<Longrightarrow> x < w \<Longrightarrow> 0 \<le> y \<Longrightarrow> y < h \<Longrightarrow> f x y = g x y"
  shows "mk_image w h f = mk_image w h g"
  using assms by (simp add: mk_image_def)

lemma img_crop_ok:
  "l \<le> r \<Longrightarrow> t \<le> b \<Longrightarrow>
   img_crop im (l, t, r, b) = Inr (mk_image (r - l) (b - t) (\<lambda>x y. getpixel im (l + x) (t + y)))"
  by (simp add: img_crop_def)

lemma img_new_ok: "0 \<le> w \<Longrightarrow> 0 \<le> h \<Longrightarrow> img_new (w, h) = Inr (mk_image w h (\<lambda>x y. black))"
  by (simp add: img_new_def)

lemma crop_panorama_size:
  assumes g: "crop_geometry (img_w im) (img_h im) heading pitch fov = Inr g"
    and w: "0 < img_w im" and cw: "0 \<le> crop_w g" and tb: "top_y g \<le> bottom g"
  shows "\<exists>out. crop_panorama im heading pitch fov = Inr out
           \<and> img_h out = bottom g - top_y g
           \<and> img_w out = (if left g < 0 \<or> right g > img_w im then crop_w g
                          else 2 * (crop_w g div 2))"
proof -
  note f = crop_geometry_fields [OF g]
  have cx: "0 \<le> center_x g" "center_x g < img_w im"
    using center_x_range [OF f(6) w] by simp_all
  have half: "0 \<le> crop_w g div 2" using cw by simp
  show ?thesis
  proof (cases "left g < 0 \<or> right g > img_w im")
    case False
    have "left g \<le> right g" using half f(1,2) by simp
    then show ?thesis
      using False tb f(1,2)
      by (simp add: crop_panorama_def g bindE_def direct_crop_def img_crop_ok)
  next
    case True
    show ?thesis
    proof (cases "left g < 0")
      case l: True
      have r: "0 \<le> right g" using cx half f(2) by simp
      show ?thesis
        using True l r tb cw
        by (simp add: crop_panorama_def g bindE_def wrap_compose_def Let_def img_crop_ok
            img_new_ok img_paste_def)
    next
      case l: False
      then have r: "img_w im < right g" using True by simp
      have "left g \<le> img_w im" using cx half f(1) by simp
      then show ?thesis
        using True l r tb cw
        by (simp add: crop_panorama_def g bindE_def wrap_compose_def Let_def img_crop_ok
            img_new_ok img_paste_def)
    qed
  qed
qed

lemma fl64_small:
  "fl64 1 = 1" "fl64 3 = 3" "fl64 5 = 5" "fl64 6 = 6" "fl64 (1 / 4) = 1 / 4" "fl64 (1 / 8) = 1 / 8"
  "fl64 (3 / 8) = 3 / 8" "fl64 (3 / 4) = 3 / 4" "fl64 (15 / 4) = 15 / 4" "fl64 2 = 2" "fl64 4 = 4"
  "fl64 (5 / 2) = 5 / 2"
  using fl64_dyadic [of 1 0] fl64_dyadic [of 3 0] fl64_dyadic [of 5 0] fl64_dyadic [of 6 0]
    fl64_dyadic [of 1 2] fl64_dyadic [of 1 3] fl64_dyadic [of 3 3] fl64_dyadic [of 3 2]
    fl64_dyadic [of 15 2] fl64_dyadic [of 2 0] fl64_dyadic [of 4 0] fl64_dyadic [of 5 1]
  by simp_all

lemma floor_small:
  "\<lfloor>15 / 4 :: rat\<rfloor> = 3" "\<lfloor>5 / 2 :: rat\<rfloor> = 2"
  using floor_divide_of_int_eq [of 15 4, where ?'a = rat]
    floor_divide_of_int_eq [of 5 2, where ?'a = rat]
  by simp_all

lemma geometry_10_5_135:
  "crop_geometry 10 5 135 0 90
   = Inr \<lparr> center_x = 3, center_y = 2, crop_w = 2, crop_h = 2,
            left = 2, right = 4, top_y = 1, bottom = 3 \<rparr>"
  by (simp add: crop_geometry_ok fl64_small fl64_half py_int_def floor_small)

lemma geometry_12_6_180:
  "crop_geometry 12 6 180 0 90
   = Inr \<lparr> center_x = 6, center_y = 3, crop_w = 3, crop_h = 3,
            left = 5, right = 7, top_y = 2, bottom = 4 \<rparr>"
  by (simp add: crop_geometry_ok fl64_small fl64_half py_int_def floor_small)

lemma geometry_12_6_0:
  "crop_geometry 12 6 0 0 90
   = Inr \<lparr> center_x = 0, center_y = 3, crop_w = 3, crop_h = 3,
            left = - 1, right = 1, top_y = 2, bottom = 4 \<rparr>"
  by (simp add: crop_geometry_ok fl64_small fl64_half py_int_def floor_small)

lemma geometry_8_4_0_45:
  "crop_geometry 8 4 0 0 45
   = Inr \<lparr> center_x = 0, center_y = 2, crop_w = 1, crop_h = 1,
            left = 0, right = 0, top_y = 2, bottom = 2 \<rparr>"
  by (simp add: crop_geometry_ok fl64_small fl64_half py_int_def floor_small)

lemma geometry_8_4_pole:
  "crop_geometry 8 4 0 90 90
   = Inr \<lparr> center_x = 0, center_y = 0, crop_w = 2, crop_h = 2,
            left = - 1, right = 1, top_y = 0, bottom = 1 \<rparr>"
  by (simp add: crop_geometry_ok fl64_small fl64_half py_int_def floor_small)

lemma geometry_8_4_270_180:
  "crop_geometry 8 4 270 0 180
   = Inr \<lparr> center_x = 6, center_y = 2, crop_w = 4, crop_h = 4,
            left = 4, right = 8, top_y = 0, bottom = 4 \<rparr>"
  by (simp add: crop_geometry_ok fl64_small fl64_half py_int_def floor_small)

lemma round_15_4: "round (15 / 4 :: rat) = 4"
  using floor_divide_of_int_eq [of 17 4, where ?'a = rat] by (simp add: round_def)

lemma crop_panorama_heading_0_360:
  assumes "\<bar>img_w im\<bar> < 2 ^ 53"
  shows "crop_panorama im 360 pitch fov = crop_panorama im 0 pitch fov"
  using center_x_heading_0_360(1) [OF assms]
  by (simp add: crop_panorama_def crop_geometry_def Let_def)

lemma crop_geometry_heading_0_360:
  assumes "\<bar>w\<bar> < 2 ^ 53"
  shows "crop_geometry w h 360 pitch fov = crop_geometry w h 0 pitch fov"
  using center_x_heading_0_360(1) [OF assms] by (simp add: crop_geometry_def)

lemma wrap_left_pixels:
  assumes l: "left g < 0" and r: "0 \<le> right g" and tb: "top_y g \<le> bottom g"
    and cw: "right g - left g \<le> crop_w g"
  shows "\<exists>out. wrap_compose im g = Inr out \<and> img_w out = crop_w g
           \<and> img_h out = bottom g - top_y g
           \<and> (\<forall>x y. 0 \<le> x \<and> x < - left g \<and> 0 \<le> y \<and> y < bottom g - top_y g \<longrightarrow>
                 getpixel out x y = getpixel im (img_w im + left g + x) (top_y g + y))
           \<and> (\<forall>x y. - left g \<le> x \<and> x < right g - left g \<and> 0 \<le> y \<and> y < bottom g - top_y g \<longrightarrow>
                 getpixel out x y = getpixel im (x + left g) (top_y g + y))"
proof -
  have c0: "0 \<le> crop_w g" using l r cw by simp
  show ?thesis
    using l r tb cw c0
    by (auto simp: wrap_compose_def Let_def bindE_def img_crop_ok img_new_ok img_paste_def
        getpixel_mk_image algebra_simps)
qed

lemma geometry_8_4_0_90:
  "crop_geometry 8 4 0 0 90
   = Inr \<lparr> center_x = 0, center_y = 2, crop_w = 2, crop_h = 2,
            left = - 1, right = 1, top_y = 1, bottom = 3 \<rparr>"
  by (simp add: crop_geometry_ok fl64_small fl64_half py_int_def floor_small)

lemma wrap_compose_seam:
  assumes l: "0 \<le> left g" and r: "right g = img_w im" and cw: "crop_w g = right g - left g"
  shows "wrap_compose im g = direct_crop im g"
proof (cases "left g \<le> right g \<and> top_y g \<le> bottom g")
  case True
  show ?thesis
    using True l r cw
    apply (simp add: wrap_compose_def direct_crop_def Let_def bindE_def img_crop_ok img_new_ok
        img_paste_def)
    apply (rule mk_image_cong)
    apply (simp add: getpixel_mk_image)
    done
next
  case False
  then show ?thesis
    using l r by (auto simp: wrap_compose_def direct_crop_def Let_def bindE_def img_crop_def)
qed

section \<open>Facts about the client and the batch layer\<close>

lemma files_log_call [simp]: "files (log_call c w) = files w"
  by (simp add: log_call_def)

lemma calls_log_call [simp]: "calls (log_call c w) = calls w @ [c]"
  by (simp add: log_call_def)

lemma files_add_file [simp]: "files (add_file p w) = insert p (files w)"
  by (simp add: add_file_def)

lemma calls_add_file [simp]: "calls (add_file p w) = calls w"
  by (simp add: add_file_def)

lemma hires_heading_result:
  "fst (hires_heading e pano img lid od p fov h w) = hires_result e pano img lid od p fov h"
  by (simp add: hires_heading_def hires_result_def Let_def split: sum.splits option.splits)

lemma hires_heading_world:
  "snd (hires_heading e pano img lid od p fov h w)
   = (if ir_success (hires_result e pano img lid od p fov h)
      then add_file (expected_file od lid p h) w else w)"
  by (simp add: hires_heading_def hires_result_def Let_def expected_file_def image_failure_def
      image_success_def split: sum.splits option.splits)

lemma hires_loop_eq:
  "hires_loop e pano img lid od p fov hs acc w
   = (acc @ map (hires_result e pano img lid od p fov) hs,
      w\<lparr> files := files w \<union> {expected_file od lid p h | h.
                        h \<in> set hs \<and> ir_success (hires_result e pano img lid od p fov h)} \<rparr>)"
proof (induction hs arbitrary: acc w)
  case Nil
  then show ?case by simp
next
  case (Cons h hs)
  obtain r w1 where hw: "hires_heading e pano img lid od p fov h w = (r, w1)" by force
  have r: "r = hires_result e pano img lid od p fov h"
    using hires_heading_result [of e pano img lid od p fov h w] hw by simp
  have w1: "w1 = (if ir_success (hires_result e pano img lid od p fov h)
                  then add_file (expected_file od lid p h) w else w)"
    using hires_heading_world [of e pano img lid od p fov h w] hw by simp
  show ?case
    by (auto simp: hw Cons.IH r w1 add_file_def intro!: world.equality)
qed

lemma coverage_loop_append:
  "coverage_loop e c (pre @ rows) acc w
   = (case coverage_loop e c pre acc w of
        (Inl x, w1) \<Rightarrow> (Inl x, w1)
      | (Inr acc1, w1) \<Rightarrow> coverage_loop e c rows acc1 w1)"
  by (induction pre arbitrary: acc w) (auto split: prod.splits sum.splits)

lemma after_checks_Nil [simp]: "after_checks c [] w = w"
  by (simp add: after_checks_def)

lemma after_checks_Cons:
  "after_checks c (row # rows) w
   = after_checks c rows (log_call (MetadataGet (loc_lat row) (loc_lon row) (api_key c)) w)"
  by (simp add: after_checks_def log_call_def)

lemma after_checks_snoc:
  "after_checks c (rows @ [row]) w
   = log_call (MetadataGet (loc_lat row) (loc_lon row) (api_key c)) (after_checks c rows w)"
  by (simp add: after_checks_def log_call_def)

lemma after_checks_world [simp]:
  "files (after_checks c rows w) = files w"
  "calls (after_checks c rows w)
   = calls w @ map (\<lambda>row. MetadataGet (loc_lat row) (loc_lon row) (api_key c)) rows"
  by (simp_all add: after_checks_def)

lemma check_coverage_pair:
  "check_coverage e c lat lon w
   = (fst (check_coverage e c lat lon w), log_call (MetadataGet lat lon (api_key c)) w)"
  by (simp add: check_coverage_def Let_def)

lemma coverage_loop_run:
  assumes "\<forall>i < length rows. \<exists>r.
             fst (check_coverage e c (loc_lat (rows ! i)) (loc_lon (rows ! i))
                    (after_checks c (take i rows) w)) = Inr r"
  shows "\<exists>rs. length rs = length rows
           \<and> (\<forall>i < length rows.
                 fst (check_coverage e c (loc_lat (rows ! i)) (loc_lon (rows ! i))
                        (after_checks c (take i rows) w)) = Inr (rs ! i))
           \<and> coverage_loop e c rows acc w
             = (Inr (acc @ map (\<lambda>(row, r). coverage_row row r) (zip rows rs)),
                after_checks c rows w)"
  using assms
proof (induction rows arbitrary: acc w)
  case Nil
  then show ?case by simp
next
  case (Cons row rows)
  define w1 where "w1 = log_call (MetadataGet (loc_lat row) (loc_lon row) (api_key c)) w"
  from Cons.prems [rule_format, of 0]
  obtain r where r: "fst (check_coverage e c (loc_lat row) (loc_lon row) w) = Inr r"
    by auto
  have cc: "check_coverage e c (loc_lat row) (loc_lon row) w = (Inr r, w1)"
    using check_coverage_pair [of e c "loc_lat row" "loc_lon row" w] r by (simp add: w1_def)
  have "\<forall>i < length rows. \<exists>r.
          fst (check_coverage e c (loc_lat (rows ! i)) (loc_lon (rows ! i))
                 (after_checks c (take i rows) w1)) = Inr r"
  proof (intro allI impI)
    fix i assume "i < length rows"
    then have "Suc i < length (row # rows)" by simp
    from Cons.prems [rule_format, OF this]
    show "\<exists>r. fst (check_coverage e c (loc_lat (rows ! i)) (loc_lon (rows ! i))
                 (after_checks c (take i rows) w1)) = Inr r"
      by (simp add: after_checks_Cons w1_def)
  qed
  from Cons.IH [OF this, of "acc @ [coverage_row row r]"]
  obtain rs where ih: "length rs = length rows"
    "\<forall>i < length rows.
        fst (check_coverage e c (loc_lat (rows ! i)) (loc_lon (rows ! i))
               (after_checks c (take i rows) w1)) = Inr (rs ! i)"
    "coverage_loop e c rows (acc @ [coverage_row row r]) w1
     = (Inr ((acc @ [coverage_row row r]) @ map (\<lambda>(row, r). coverage_row row r) (zip rows rs)),
        after_checks c rows w1)"
    by blast
  have idx: "\<forall>i < length (row # rows).
        fst (check_coverage e c (loc_lat ((row # rows) ! i)) (loc_lon ((row # rows) ! i))
               (after_checks c (take i (row # rows)) w)) = Inr ((r # rs) ! i)"
  proof (intro allI impI)
    fix i assume i: "i < length (row # rows)"
    show "fst (check_coverage e c (loc_lat ((row # rows) ! i)) (loc_lon ((row # rows) ! i))
               (after_checks c (take i (row # rows)) w)) = Inr ((r # rs) ! i)"
    proof (cases i)
      case 0
      then show ?thesis using r by simp
    next
      case (Suc j)
      then have "j < length rows" using i by simp
      then show ?thesis using ih(2) Suc by (simp add: after_checks_Cons w1_def)
    qed
  qed
  show ?case
    using ih(1,3) idx
    by (intro exI [of _ "r # rs"]) (simp add: cc after_checks_Cons w1_def)
qed

lemma coverage_rows_ids:
  assumes "length rows = length rs"
  shows "map cov_location_id (map (\<lambda>(row, r). coverage_row row r) (zip rows rs))
         = map loc_location_id rows"
  using assms by (induction rows rs rule: list_induct2) (simp_all add: coverage_row_def)

lemma no_pano_row:
  "pano_missing (loc_pano_id row) \<Longrightarrow>
   hires_batch_row e od hs p fov zoom sk row w = (no_pano_records row p hs, w)"
  by (simp add: hires_batch_row_def pano_missing_def split: option.splits)

lemma hires_find_raises:
  "find_panorama_by_id e (calls w) pid = Inl x \<Longrightarrow>
   download_location_hires e pid lid od hso p fov zoom w
   = (map (\<lambda>h. image_failure 0 0 h p (exn_str x)) (headings_or_default hso),
      log_call (FindPanorama pid) w)"
  by (simp add: download_location_hires_def Let_def)

lemma hires_find_none:
  "find_panorama_by_id e (calls w) pid = Inr None \<Longrightarrow>
   download_location_hires e pid lid od hso p fov zoom w
   = (map (\<lambda>h. image_failure 0 0 h p (''Panorama not found: '' @ pid)) (headings_or_default hso),
      log_call (FindPanorama pid) w)"
  by (simp add: download_location_hires_def Let_def)

lemma hires_get_raises:
  "find_panorama_by_id e (calls w) pid = Inr (Some pano) \<Longrightarrow>
   get_panorama e (calls w @ [FindPanorama pid]) pano zoom = Inl x \<Longrightarrow>
   download_location_hires e pid lid od hso p fov zoom w
   = (map (\<lambda>h. image_failure 0 0 h p (exn_str x)) (headings_or_default hso),
      log_call (GetPanorama (pano_ident pano) zoom) (log_call (FindPanorama pid) w))"
  by (simp add: download_location_hires_def Let_def)

lemma hires_get_none:
  "find_panorama_by_id e (calls w) pid = Inr (Some pano) \<Longrightarrow>
   get_panorama e (calls w @ [FindPanorama pid]) pano zoom = Inr None \<Longrightarrow>
   download_location_hires e pid lid od hso p fov zoom w
   = (map (\<lambda>h. image_failure (pano_lat pano) (pano_lon pano) h p
                  ''Failed to download panorama'') (headings_or_default hso),
      log_call (GetPanorama (pano_ident pano) zoom) (log_call (FindPanorama pid) w))"
  by (simp add: download_location_hires_def Let_def)

lemma hires_stage_two:
  "find_panorama_by_id e (calls w) pid = Inr (Some pano) \<Longrightarrow>
   get_panorama e (calls w @ [FindPanorama pid]) pano zoom = Inr (Some img) \<Longrightarrow>
   fst (download_location_hires e pid lid od hso p fov zoom w)
   = map (hires_result e pano img lid od p fov) (headings_or_default hso)"
  by (simp add: download_location_hires_def Let_def hires_loop_eq)

lemma hires_result_success:
  "ir_success (hires_result e pano img lid od p fov h)
   = ((\<exists>c. crop_panorama img h p fov = Inr c) \<and> write_file e (expected_file od lid p h) = None)"
  by (simp add: hires_result_def Let_def expected_file_def image_failure_def image_success_def
      split: sum.splits option.splits)

lemma dec_digits_small: "n < 10 \<Longrightarrow> dec_digits n = [digit_char n]"
  by (simp add: dec_digits.simps [of n])

lemma dec_digits_step: "10 \<le> n \<Longrightarrow> dec_digits n = dec_digits (n div 10) @ [digit_char (n mod 10)]"
  by (simp add: dec_digits.simps [of n])

lemma digit_char_0: "digit_char 0 = CHR ''0''"
  by (simp add: digit_char_def)

lemma replicate_pad:
  "replicate (2 - Suc 0) c = [c]" "replicate (3 - Suc 0) c = [c, c]"
  "replicate (3 - Suc (Suc 0)) c = [c]" "replicate 2 c = [c, c]" "replicate 1 c = [c]"
  by (simp_all add: numeral_2_eq_2 numeral_3_eq_3)

lemma dec_digits_2:
  assumes "n < 100"
  shows "replicate (2 - length (dec_digits n)) CHR ''0'' @ dec_digits n
         = [digit_char (n div 10), digit_char (n mod 10)]"
proof (cases "n < 10")
  case True
  then have d: "dec_digits n = [digit_char n]" by (rule dec_digits_small)
  have "n div 10 = 0" "n mod 10 = n" using True by simp_all
  then show ?thesis by (simp add: d digit_char_0 replicate_pad)
next
  case False
  then have a: "10 \<le> n" by simp
  have "n div 10 < 10" using assms by simp
  then have "dec_digits (n div 10) = [digit_char (n div 10)]" by (rule dec_digits_small)
  then have "dec_digits n = [digit_char (n div 10), digit_char (n mod 10)]"
    using dec_digits_step [OF a] by simp
  then show ?thesis by simp
qed

lemma dec_digits_3:
  assumes "n < 1000"
  shows "replicate (3 - length (dec_digits n)) CHR ''0'' @ dec_digits n
         = [digit_char (n div 100), digit_char (n div 10 mod 10), digit_char (n mod 10)]"
proof -
  consider "n < 10" | "10 \<le> n" "n < 100" | "100 \<le> n" by linarith
  then show ?thesis
  proof cases
    case 1
    then have d: "dec_digits n = [digit_char n]" by (rule dec_digits_small)
    have "n div 100 = 0" "n div 10 = 0" "n mod 10 = n" using 1 by simp_all
    then show ?thesis by (simp add: d digit_char_0 replicate_pad)
  next
    case 2
    have "n div 10 < 10" using 2 by simp
    then have "dec_digits (n div 10) = [digit_char (n div 10)]" by (rule dec_digits_small)
    then have d: "dec_digits n = [digit_char (n div 10), digit_char (n mod 10)]"
      using dec_digits_step [OF 2(1)] by simp
    have "n div 100 = 0" "n div 10 mod 10 = n div 10" using 2 by simp_all
    then show ?thesis by (simp add: d digit_char_0 replicate_pad)
  next
    case 3
    then have a: "10 \<le> n" "10 \<le> n div 10" by simp_all
    have c: "n div 10 div 10 = n div 100" by (simp add: div_mult2_eq [symmetric])
    have "n div 100 < 10" using assms by simp
    then have "dec_digits (n div 100) = [digit_char (n div 100)]" by (rule dec_digits_small)
    then have "dec_digits (n div 10) = [digit_char (n div 100), digit_char (n div 10 mod 10)]"
      using dec_digits_step [OF a(2)] by (simp add: c)
    then have d: "dec_digits n
                  = [digit_char (n div 100), digit_char (n div 10 mod 10), digit_char (n mod 10)]"
      using dec_digits_step [OF a(1)] by simp
    show ?thesis by (simp add: d)
  qed
qed

lemma format_heading:
  assumes "0 \<le> heading" "heading \<le> 999"
  shows "format_d False 3 heading
         = [digit_char (nat heading div 100), digit_char (nat heading div 10 mod 10),
            digit_char (nat heading mod 10)]"
proof -
  have "nat \<bar>heading\<bar> = nat heading" "nat heading < 1000" using assms by simp_all
  then show ?thesis using assms dec_digits_3 [of "nat heading"]
    by (simp add: format_d_def Let_def)
qed

lemma format_pitch:
  assumes "- 99 \<le> pitch" "pitch \<le> 99"
  shows "format_d True 3 pitch
         = [if pitch < 0 then CHR ''-'' else CHR ''+'',
            digit_char (nat \<bar>pitch\<bar> div 10), digit_char (nat \<bar>pitch\<bar> mod 10)]"
proof -
  define m where "m = nat \<bar>pitch\<bar>"
  have "m < 100" using assms by (simp add: m_def)
  then have "replicate (2 - length (dec_digits m)) CHR ''0'' @ dec_digits m
             = [digit_char (m div 10), digit_char (m mod 10)]"
    by (rule dec_digits_2)
  then show ?thesis
    unfolding format_d_def Let_def m_def [symmetric] by simp
qed

lemma filename_loc_00042: "image_filename ''loc_00042'' 90 0 = ''loc_00042_h090_p+00.jpg''"
proof -
  have h: "format_d False 3 90 = ''090''"
    using format_heading [of 90] by (simp add: digit_char_def)
  have p: "format_d True 3 0 = ''+00''"
    using format_pitch [of 0] by (simp add: digit_char_def)
  show ?thesis by (simp add: image_filename_def h p)
qed

lemma download_image_returns:
  assumes "download_image e c lat lon h path p fov sz w = (Inr r, w1)"
  shows "ir_heading r = h" and "ir_pitch r = p"
    and "calls w1 = calls w @ [ImageGet lat lon h p fov sz (api_key c)]"
    and "files w \<subseteq> files w1"
    and "ir_success r \<Longrightarrow> r = image_success lat lon h p path \<and> path \<in> files w1"
  using assms
  by (auto simp: download_image_def Let_def image_failure_def image_success_def
      split: sum.splits option.splits if_splits exn.splits)

lemma location_images_loop_returns:
  assumes "location_images_loop e c lat lon lid od p hs acc w = (Inr rs, w1)"
  shows "\<exists>new. rs = acc @ new \<and> map ir_heading new = hs
           \<and> calls w1 = calls w @ map (\<lambda>h. ImageGet lat lon h p 90 ''640x640'' (api_key c)) hs
           \<and> files w \<subseteq> files w1
           \<and> list_all2 (\<lambda>r h. ir_pitch r = p
                 \<and> (ir_success r \<longrightarrow> r = image_success lat lon h p (expected_file od lid p h)
                                     \<and> expected_file od lid p h \<in> files w1)) new hs"
  using assms
proof (induction hs arbitrary: acc w)
  case Nil
  then show ?case by simp
next
  case (Cons h hs)
  let ?path = "path_join od (image_filename lid h p)"
  obtain r w' where d: "download_image e c lat lon h ?path p 90 ''640x640'' w = (Inr r, w')"
    and l: "location_images_loop e c lat lon lid od p hs (acc @ [r]) w' = (Inr rs, w1)"
    using Cons.prems by (auto simp: Let_def split: prod.splits sum.splits)
  note f = download_image_returns [OF d]
  from Cons.IH [OF l] obtain new where ih:
    "rs = (acc @ [r]) @ new" "map ir_heading new = hs"
    "calls w1 = calls w' @ map (\<lambda>h. ImageGet lat lon h p 90 ''640x640'' (api_key c)) hs"
    "files w' \<subseteq> files w1"
    "list_all2 (\<lambda>r h. ir_pitch r = p
          \<and> (ir_success r \<longrightarrow> r = image_success lat lon h p (expected_file od lid p h)
                              \<and> expected_file od lid p h \<in> files w1)) new hs"
    by blast
  have "ir_success r \<longrightarrow> r = image_success lat lon h p (expected_file od lid p h)
                          \<and> expected_file od lid p h \<in> files w1"
    using f(5) ih(4) by (auto simp: expected_file_def)
  then show ?case
    using f(1,2,3,4) ih by (intro exI [of _ "r # new"]) auto
qed

lemma hires_result_path:
  "ir_success (hires_result e pano img lid od p fov h) \<Longrightarrow>
   hires_result e pano img lid od p fov h
   = image_success (pano_lat pano) (pano_lon pano) h p (expected_file od lid p h)"
  by (auto simp: hires_result_def Let_def expected_file_def image_failure_def
      split: sum.splits option.splits)

lemma ir_image_path_success [simp]: "ir_image_path (image_success lat lon h p path) = Some path"
  by (simp add: image_success_def)

lemma geometry_8_4_90_90:
  "crop_geometry 8 4 90 0 90
   = Inr \<lparr> center_x = 2, center_y = 2, crop_w = 2, crop_h = 2,
            left = 1, right = 3, top_y = 1, bottom = 3 \<rparr>"
  by (simp add: crop_geometry_ok fl64_small fl64_half py_int_def floor_small)

lemma crop_test_image_ok:
  "\<exists>c. crop_panorama (test_image 8 4) 0 0 90 = Inr c"
  "\<exists>c. crop_panorama (test_image 8 4) 90 0 90 = Inr c"
proof -
  have g0: "crop_geometry (img_w (test_image 8 4)) (img_h (test_image 8 4)) 0 0 90
            = Inr \<lparr> center_x = 0, center_y = 2, crop_w = 2, crop_h = 2,
                     left = - 1, right = 1, top_y = 1, bottom = 3 \<rparr>"
    by (simp add: test_image_def geometry_8_4_0_90)
  have g90: "crop_geometry (img_w (test_image 8 4)) (img_h (test_image 8 4)) 90 0 90
            = Inr \<lparr> center_x = 2, center_y = 2, crop_w = 2, crop_h = 2,
                     left = 1, right = 3, top_y = 1, bottom = 3 \<rparr>"
    by (simp add: test_image_def geometry_8_4_90_90)
  have w: "0 < img_w (test_image 8 4)" by (simp add: test_image_def)
  show "\<exists>c. crop_panorama (test_image 8 4) 0 0 90 = Inr c"
    using crop_panorama_size [OF g0 w] by auto
  show "\<exists>c. crop_panorama (test_image 8 4) 90 0 90 = Inr c"
    using crop_panorama_size [OF g90 w] by auto
qed

lemma test_filenames:
  "image_filename ''x'' 0 0 = ''x_h000_p+00.jpg''"
  "image_filename ''b'' 0 0 = ''b_h000_p+00.jpg''"
  "image_filename ''b'' 90 0 = ''b_h090_p+00.jpg''"
  "image_filename ''a'' 0 0 = ''a_h000_p+00.jpg''"
  "image_filename ''x'' 5 (- 10) = ''x_h005_p-10.jpg''"
proof -
  have h: "format_d False 3 0 = ''000''" "format_d False 3 90 = ''090''"
    "format_d False 3 5 = ''005''"
    using format_heading [of 0] format_heading [of 90] format_heading [of 5]
    by (simp_all add: digit_char_def)
  have p: "format_d True 3 0 = ''+00''" "format_d True 3 (- 10) = ''-10''"
    using format_pitch [of 0] format_pitch [of "- 10"] by (simp_all add: digit_char_def)
  show "image_filename ''x'' 0 0 = ''x_h000_p+00.jpg''"
    "image_filename ''b'' 0 0 = ''b_h000_p+00.jpg''"
    "image_filename ''b'' 90 0 = ''b_h090_p+00.jpg''"
    "image_filename ''a'' 0 0 = ''a_h000_p+00.jpg''"
    "image_filename ''x'' 5 (- 10) = ''x_h005_p-10.jpg''"
    by (simp_all add: image_filename_def h p)
qed

lemma test_hires_results:
  "hires_result test_env test_pano (test_image 8 4) ''b'' ''out'' 0 90 0
   = image_success 3 4 0 0 ''out/b_h000_p+00.jpg''"
  "hires_result test_env test_pano (test_image 8 4) ''b'' ''out'' 0 90 90
   = image_failure 3 4 90 0 ''No space left on device''"
  "hires_result test_env test_pano (test_image 8 4) ''x'' ''out'' 0 90 0
   = image_success 3 4 0 0 ''out/x_h000_p+00.jpg''"
proof -
  obtain c0 c90 where c: "crop_panorama (test_image 8 4) 0 0 90 = Inr c0"
    "crop_panorama (test_image 8 4) 90 0 90 = Inr c90"
    using crop_test_image_ok by blast
  show "hires_result test_env test_pano (test_image 8 4) ''b'' ''out'' 0 90 0
        = image_success 3 4 0 0 ''out/b_h000_p+00.jpg''"
    "hires_result test_env test_pano (test_image 8 4) ''b'' ''out'' 0 90 90
        = image_failure 3 4 90 0 ''No space left on device''"
    "hires_result test_env test_pano (test_image 8 4) ''x'' ''out'' 0 90 0
        = image_success 3 4 0 0 ''out/x_h000_p+00.jpg''"
    by (simp_all add: hires_result_def c test_filenames path_join_def test_env_def test_pano_def)
qed


lemma all_exist_expected:
  "all_exist w (expected_files od lid p hs) = (\<forall>h \<in> set hs. expected_file od lid p h \<in> files w)"
  by (auto simp: all_exist_def expected_files_def list_all_iff)

lemma skip_records_map:
  "skip_records row od p hs
   = map (\<lambda>h. \<lparr> dl_location_id = loc_location_id row, dl_city = loc_city row,
                 dl_lat = loc_lat row, dl_lon = loc_lon row, dl_heading = h, dl_pitch = p,
                 dl_image_path = Some (expected_file od (loc_location_id row) p h),
                 dl_success = True, dl_error = None \<rparr>) hs"
  by (induction hs) (simp_all add: skip_records_def expected_files_def)

lemma skip_records_fields:
  "map dl_image_path (skip_records row od p hs)
   = map Some (expected_files od (loc_location_id row) p hs)"
  "map dl_success (skip_records row od p hs) = map (\<lambda>h. True) hs"
  "map dl_heading (skip_records row od p hs) = hs"
  by (simp_all add: skip_records_map expected_files_def comp_def)


lemma headings_or_default_Some: "hs \<noteq> [] \<Longrightarrow> headings_or_default (Some hs) = hs"
  by (simp add: headings_or_default_def)





lemma images_row_skip:
  "all_exist w (expected_files od (loc_location_id row) p hs) \<Longrightarrow>
   images_batch_row e c od hs p True row w = (Inr (skip_records row od p hs), w)"
  by (simp add: images_batch_row_def)

lemma images_row_fetch:
  assumes "\<not> (sk \<and> all_exist w (expected_files od (loc_location_id row) p hs))" "hs \<noteq> []"
    and "images_batch_row e c od hs p sk row w = (Inr recs, w1)"
  shows "\<exists>rs. download_location_images e c (loc_lat row) (loc_lon row) (loc_location_id row)
                 od (Some hs) p w = (Inr rs, w1)
           \<and> recs = result_records row rs \<and> map ir_heading rs = hs
           \<and> calls w1 = calls w @ map (\<lambda>h. ImageGet (loc_lat row) (loc_lon row) h p 90
                                              ''640x640'' (api_key c)) hs
           \<and> files w \<subseteq> files w1
           \<and> list_all2 (\<lambda>r h. ir_pitch r = p
                 \<and> (ir_success r \<longrightarrow>
                       r = image_success (loc_lat row) (loc_lon row) h p
                             (expected_file od (loc_location_id row) p h)
                       \<and> expected_file od (loc_location_id row) p h \<in> files w1)) rs hs"
proof -
  obtain rs where d: "download_location_images e c (loc_lat row) (loc_lon row)
                        (loc_location_id row) od (Some hs) p w = (Inr rs, w1)"
    and r: "recs = result_records row rs"
    using assms(1,3) by (auto simp: images_batch_row_def split: prod.splits sum.splits)
  from location_images_loop_returns [OF d [unfolded download_location_images_def]]
  show ?thesis
    using d r by (simp add: headings_or_default_Some [OF assms(2)])
qed





lemma image_failure_not_success [simp]: "\<not> ir_success (image_failure lat lon h p msg)"
  by (simp add: image_failure_def)

lemma ir_heading_failure [simp]: "ir_heading (image_failure lat lon h p msg) = h"
  by (simp add: image_failure_def)

lemma ir_heading_hires_result [simp]: "ir_heading (hires_result e pano img lid od p fov h) = h"
  by (simp add: hires_result_def Let_def image_failure_def image_success_def
      split: sum.splits option.splits)

lemma hires_fetch_facts:
  assumes "download_location_hires e pid lid od (Some hs) p fov zoom w = (rs, w1)" "hs \<noteq> []"
  shows "map ir_heading rs = hs" and "files w \<subseteq> files w1"
    and "\<exists>cs. calls w1 = calls w @ FindPanorama pid # cs"
    and "list_all ir_success rs \<Longrightarrow>
           (\<exists>lat lon. rs = map (\<lambda>h. image_success lat lon h p (expected_file od lid p h)) hs)
           \<and> (\<forall>h \<in> set hs. expected_file od lid p h \<in> files w1)"
proof -
  note d = assms(1) [unfolded download_location_hires_def Let_def
      headings_or_default_Some [OF assms(2)]]
  have ne: "\<not> list_all ir_success (map (\<lambda>h. image_failure a b h p msg) hs)" for a b msg
    using assms(2) by (cases hs) simp_all
  show "map ir_heading rs = hs"
    using d by (auto simp: hires_loop_eq comp_def split: sum.splits option.splits)
  show "files w \<subseteq> files w1"
    using d by (auto simp: hires_loop_eq split: sum.splits option.splits)
  show "\<exists>cs. calls w1 = calls w @ FindPanorama pid # cs"
    using d by (auto simp: hires_loop_eq split: sum.splits option.splits)
  show "(\<exists>lat lon. rs = map (\<lambda>h. image_success lat lon h p (expected_file od lid p h)) hs)
           \<and> (\<forall>h \<in> set hs. expected_file od lid p h \<in> files w1)"
    if s: "list_all ir_success rs"
  proof (cases "find_panorama_by_id e (calls w) pid")
    case (Inl x)
    then show ?thesis using d s ne by auto
  next
    case (Inr po)
    show ?thesis
    proof (cases po)
      case None
      then show ?thesis using d s ne Inr by auto
    next
      case (Some pano)
      show ?thesis
      proof (cases "get_panorama e (calls (log_call (FindPanorama pid) w)) pano zoom")
        case (Inl x)
        then show ?thesis using d s ne Inr Some by auto
      next
        case g: (Inr io)
        show ?thesis
        proof (cases io)
          case None
          then show ?thesis using d s ne Inr Some g by auto
        next
          case (Some img)
          have rs: "rs = map (hires_result e pano img lid od p fov) hs"
            and w1: "files w1 = files w \<union> {expected_file od lid p h | h.
                        h \<in> set hs \<and> ir_success (hires_result e pano img lid od p fov h)}"
            using d Inr \<open>po = Some pano\<close> g Some by (auto simp: hires_loop_eq)
          have all: "\<forall>h \<in> set hs. ir_success (hires_result e pano img lid od p fov h)"
            using s rs by (simp add: list_all_iff)
          then have "rs = map (\<lambda>h. image_success (pano_lat pano) (pano_lon pano) h p
                                     (expected_file od lid p h)) hs"
            using rs by (simp add: hires_result_path)
          then show ?thesis using all w1 by auto
        qed
      qed
    qed
  qed
qed

lemma hires_row_skip:
  "all_exist w (expected_files od (loc_location_id row) p hs) \<Longrightarrow>
   \<not> pano_missing (loc_pano_id row) \<Longrightarrow>
   hires_batch_row e od hs p fov zoom True row w = (skip_records row od p hs, w)"
  by (auto simp: hires_batch_row_def pano_missing_def split: option.splits)

lemma hires_row_fetch:
  assumes "\<not> (sk \<and> all_exist w (expected_files od (loc_location_id row) p hs))"
    and "loc_pano_id row = Some pid" "pid \<noteq> []"
    and "hires_batch_row e od hs p fov zoom sk row w = (recs, w1)"
  shows "\<exists>rs. download_location_hires e pid (loc_location_id row) od (Some hs) p fov zoom w
               = (rs, w1) \<and> recs = result_records row rs"
  using assms by (auto simp: hires_batch_row_def split: prod.splits)






lemma download_image_files:
  "files (snd (download_image e c lat lon h path p fov sz w)) \<subseteq> insert path (files w)"
  by (auto simp: download_image_def Let_def split: sum.splits option.splits if_splits exn.splits)

lemma location_images_loop_files:
  "files (snd (location_images_loop e c lat lon lid od p hs acc w))
   \<subseteq> files w \<union> set (expected_files od lid p hs)"
proof (induction hs arbitrary: acc w)
  case Nil
  then show ?case by simp
next
  case (Cons h hs)
  let ?path = "path_join od (image_filename lid h p)"
  obtain r w' where d: "download_image e c lat lon h ?path p 90 ''640x640'' w = (r, w')"
    by force
  have f: "files w' \<subseteq> insert ?path (files w)"
    using download_image_files [of e c lat lon h ?path p 90 "''640x640''" w] d by simp
  show ?case
  proof (cases r)
    case (Inl x)
    then show ?thesis using d f by (auto simp: expected_files_def expected_file_def)
  next
    case (Inr res)
    have "files (snd (location_images_loop e c lat lon lid od p hs (acc @ [res]) w'))
          \<subseteq> files w' \<union> set (expected_files od lid p hs)"
      by (rule Cons.IH)
    then show ?thesis using d f Inr by (auto simp: expected_files_def expected_file_def)
  qed
qed

lemma hires_result_image_path:
  "ir_success (hires_result e pano img lid od p fov h) \<Longrightarrow>
   ir_image_path (hires_result e pano img lid od p fov h) = Some (expected_file od lid p h)"
  by (auto simp: hires_result_def Let_def expected_file_def image_failure_def image_success_def
      split: sum.splits option.splits)

lemma hires_fetch_named:
  "list_all2 (\<lambda>r h. ir_heading r = h
                \<and> (ir_success r \<longrightarrow>
                     ir_image_path r = Some (expected_file od lid p h)
                     \<and> expected_file od lid p h
                         \<in> files (snd (download_location_hires e pid lid od hso p fov zoom w))))
     (fst (download_location_hires e pid lid od hso p fov zoom w)) (headings_or_default hso)"
  by (auto simp: download_location_hires_def Let_def hires_loop_eq list_all2_map1 list_all2_same
      hires_result_image_path split: sum.splits option.splits)

lemma hires_fetch_files:
  "files (snd (download_location_hires e pid lid od hso p fov zoom w))
   \<subseteq> files w \<union> set (expected_files od lid p (headings_or_default hso))"
  by (auto simp: download_location_hires_def Let_def hires_loop_eq expected_files_def
      split: sum.splits option.splits)

lemma images_row_skip_iff:
  "(images_batch_row e c od hs p True row w = (Inr (skip_records row od p hs), w))
   = all_exist w (expected_files od (loc_location_id row) p hs)"
proof (cases "all_exist w (expected_files od (loc_location_id row) p hs)")
  case True
  then show ?thesis by (simp add: images_row_skip)
next
  case False
  then have ne: "hs \<noteq> []" by (auto simp: all_exist_def expected_files_def)
  have n: "\<not> (True \<and> all_exist w (expected_files od (loc_location_id row) p hs))"
    using False by simp
  have "images_batch_row e c od hs p True row w \<noteq> (Inr (skip_records row od p hs), w)"
  proof
    assume "images_batch_row e c od hs p True row w = (Inr (skip_records row od p hs), w)"
    from images_row_fetch [OF n ne this]
    have "calls w = calls w @ map (\<lambda>h. ImageGet (loc_lat row) (loc_lon row) h p 90
                                              ''640x640'' (api_key c)) hs"
      by blast
    then show False using ne by simp
  qed
  then show ?thesis using False by simp
qed

lemma hires_row_skip_iff:
  assumes "\<not> pano_missing (loc_pano_id row)"
  shows "(hires_batch_row e od hs p fov zoom True row w = (skip_records row od p hs, w))
         = all_exist w (expected_files od (loc_location_id row) p hs)"
proof (cases "all_exist w (expected_files od (loc_location_id row) p hs)")
  case True
  then show ?thesis using assms by (simp add: hires_row_skip)
next
  case False
  then have ne: "hs \<noteq> []" by (auto simp: all_exist_def expected_files_def)
  have n: "\<not> (True \<and> all_exist w (expected_files od (loc_location_id row) p hs))"
    using False by simp
  obtain pid where pid: "loc_pano_id row = Some pid" "pid \<noteq> []"
    using assms by (auto simp: pano_missing_def split: option.splits)
  have "hires_batch_row e od hs p fov zoom True row w \<noteq> (skip_records row od p hs, w)"
  proof
    assume "hires_batch_row e od hs p fov zoom True row w = (skip_records row od p hs, w)"
    from hires_row_fetch [OF n pid this]
    obtain rs where "download_location_hires e pid (loc_location_id row) od (Some hs) p fov zoom w
                     = (rs, w)"
      by blast
    from hires_fetch_facts(3) [OF this ne]
    show False by simp
  qed
  then show ?thesis using False by simp
qed

section \<open>The claims about the crop algorithm\<close>

text \<open>
  Claim C3, as stated: for every image size \<open>w \<times> h\<close> and every heading, pitch and fov the
  algorithm computes \<open>center_x = round((heading/360) * w) mod w\<close>,
  \<open>center_y = round(h/2 - (pitch/180) * h)\<close> and \<open>crop_w = crop_h = round((fov/360) * w)\<close>.
  Counterexample: the code converts with \<^verbatim>\<open>int()\<close>, which truncates. For a \<open>10 \<times> 5\<close>
  image and heading 135 the product is \<open>3.75\<close>: the code's \<open>center_x\<close> is 3, the rounded
  value is 4.
\<close>

theorem crop_geometry_truncates_counterexample:
  "\<exists>g. crop_geometry 10 5 135 0 90 = Inr g \<and> center_x g = 3
       \<and> round (of_int 135 / 360 * of_int 10 :: rat) mod 10 = (4::int)"
  by (simp add: geometry_10_5_135 round_15_4)

text \<open>
  Claim C3, amended: for every image of width \<open>0 < w\<close> and height \<open>0 \<le> h\<close> and every
  heading, pitch and fov (all below \<open>2\<^sup>5\<^sup>3\<close> in magnitude, so that no conversion to float is
  inexact or overflows) the geometry is computed without an exception, with
  \<open>center_x = trunc((heading/360) * w) mod w\<close>, which lies in \<open>[0, w)\<close>,
  \<open>center_y = trunc(h/2 - (pitch/180) * h)\<close> and \<open>crop_w = crop_h = trunc((fov/360) * w)\<close>,
  where \<open>trunc\<close> is truncation toward zero (\<open>py_int\<close>) and the arithmetic inside is
  double precision (\<open>fl64\<close> after every operation).
\<close>

theorem crop_geometry_formulas:
  assumes "0 < w" "w < 2 ^ 53" "0 \<le> h" "h < 2 ^ 53"
    and "\<bar>heading\<bar> < 2 ^ 53" "\<bar>pitch\<bar> < 2 ^ 53" "\<bar>fov\<bar> < 2 ^ 53"
  shows "\<exists>g. crop_geometry w h heading pitch fov = Inr g
           \<and> center_x g = py_int (fl64 (fl64 (of_int heading / 360) * of_int w)) mod w
           \<and> 0 \<le> center_x g \<and> center_x g < w
           \<and> center_y g
               = py_int (fl64 (of_int h / 2 - fl64 (fl64 (of_int pitch / 180) * of_int h)))
           \<and> crop_w g = py_int (fl64 (fl64 (of_int fov / 360) * of_int w))
           \<and> crop_h g = crop_w g"
proof -
  have "\<bar>w\<bar> < 2 ^ 53" "w \<noteq> 0" "\<bar>h\<bar> < 2 ^ 53" using assms by simp_all
  then show ?thesis
    using assms by (simp add: crop_geometry_ok Let_def)
qed

text \<open>
  Witness for C3: the \<open>10 \<times> 5\<close> image at heading 135, pitch 0, fov 90.
\<close>

theorem crop_geometry_formulas_witness:
  "(0::int) < 10 \<and> (10::int) < 2 ^ 53 \<and> (0::int) \<le> 5 \<and> (5::int) < 2 ^ 53
   \<and> \<bar>135::int\<bar> < 2 ^ 53 \<and> \<bar>0::int\<bar> < 2 ^ 53 \<and> \<bar>90::int\<bar> < 2 ^ 53
   \<and> (\<exists>g. crop_geometry 10 5 135 0 90 = Inr g
           \<and> center_x g = py_int (fl64 (fl64 (of_int 135 / 360) * of_int 10)) mod 10
           \<and> center_x g = 3 \<and> center_y g = 2 \<and> crop_w g = 2 \<and> crop_h g = crop_w g)"
  using crop_geometry_formulas [of 10 5 135 0 90] geometry_10_5_135 by auto

text \<open>
  Claim C4 (the output is exactly \<open>crop_w\<close> wide in both branches, and in the wraparound
  branch the two sub-crops together are \<open>crop_w\<close> wide) fails for every odd \<open>crop_w\<close>,
  because both halves are \<^verbatim>\<open>crop_w // 2\<close>. The code at the failing input, a \<open>12 \<times> 6\<close>
  panorama with fov 90 (\<open>crop_w = 3\<close>): at heading 180 the direct branch returns an image
  2 pixels wide; at heading 0 the wraparound branch crops two parts that are 1 pixel wide
  each (pasted on a canvas 3 wide, whose last column stays black).
\<close>

theorem crop_width_odd_crop_w:
  "(\<exists>g out. crop_geometry 12 6 180 0 90 = Inr g \<and> crop_w g = 3
       \<and> \<not> (left g < 0 \<or> right g > 12)
       \<and> crop_panorama (test_image 12 6) 180 0 90 = Inr out \<and> img_w out = 2)
   \<and> (\<exists>g lp rp. crop_geometry 12 6 0 0 90 = Inr g \<and> crop_w g = 3 \<and> left g < 0
       \<and> img_crop (test_image 12 6) (12 + left g, top_y g, 12, bottom g) = Inr lp
       \<and> img_crop (test_image 12 6) (0, top_y g, right g, bottom g) = Inr rp
       \<and> img_w lp + img_w rp = 2)"
  by (simp add: geometry_12_6_180 geometry_12_6_0 crop_panorama_def test_image_def bindE_def
      direct_crop_def img_crop_ok)

text \<open>
  Claim C5, as stated: for every panorama, pitch and fov, heading 0 and heading 360 both
  take the wraparound branch. Counterexample: on an \<open>8 \<times> 4\<close> panorama with fov 45 the crop
  is 1 pixel wide, \<open>left = right = 0\<close>, and the direct branch is taken.
\<close>

theorem heading_0_direct_branch_counterexample:
  "\<exists>g. crop_geometry 8 4 0 0 45 = Inr g \<and> \<not> (left g < 0 \<or> right g > 8)
       \<and> crop_panorama (test_image 8 4) 0 0 45 = direct_crop (test_image 8 4) g"
  by (simp add: geometry_8_4_0_45 crop_panorama_def test_image_def bindE_def)

text \<open>
  Claim C5, amended: for every panorama (of a width \<open>0 < w < 2\<^sup>5\<^sup>3\<close>) and every pitch and
  fov, cropping at heading 360 and at heading 0 give the same result, both with
  \<open>center_x = 0\<close> after the reduction modulo \<open>w\<close>; and whenever the crop is at least 2
  pixels wide (and \<open>top \<le> bottom\<close>) both take the \<open>left < 0\<close> wraparound branch, whose
  output is \<open>crop_w\<close> wide and \<open>bottom - top\<close> high and holds the sub-crop at the right edge
  of the panorama (columns \<open>w + left\<close> to \<open>w - 1\<close>) followed by the sub-crop at its left
  edge (columns \<open>0\<close> to \<open>right - 1\<close>). The two headings have the same geometry, and the
  branch is decided by \<open>crop_w\<close> alone: when \<open>crop_w \<ge> 2\<close> both headings run the
  wraparound branch, and when \<open>crop_w < 2\<close> both run the direct branch.
\<close>

theorem heading_0_360_same_crop:
  assumes "0 < img_w im" "img_w im < 2 ^ 53"
  shows "crop_panorama im 360 pitch fov = crop_panorama im 0 pitch fov
     \<and> center_x_of (img_w im) 360 = Inr 0 \<and> center_x_of (img_w im) 0 = Inr 0
     \<and> (\<forall>g. crop_geometry (img_w im) (img_h im) 0 pitch fov = Inr g
              \<and> 2 \<le> crop_w g \<and> top_y g \<le> bottom g \<longrightarrow>
          left g < 0
          \<and> (\<exists>out. crop_panorama im 0 pitch fov = Inr out
                \<and> wrap_compose im g = Inr out
                \<and> img_w out = crop_w g \<and> img_h out = bottom g - top_y g
                \<and> (\<forall>x y. 0 \<le> x \<and> x < - left g \<and> 0 \<le> y \<and> y < bottom g - top_y g \<longrightarrow>
                      getpixel out x y = getpixel im (img_w im + left g + x) (top_y g + y))
                \<and> (\<forall>x y. - left g \<le> x \<and> x < right g - left g
                          \<and> 0 \<le> y \<and> y < bottom g - top_y g \<longrightarrow>
                      getpixel out x y = getpixel im (x + left g) (top_y g + y))))
     \<and> crop_geometry (img_w im) (img_h im) 360 pitch fov
       = crop_geometry (img_w im) (img_h im) 0 pitch fov
     \<and> (\<forall>g. crop_geometry (img_w im) (img_h im) 0 pitch fov = Inr g \<longrightarrow>
          (if 2 \<le> crop_w g
           then left g < 0
                \<and> crop_panorama im 0 pitch fov = wrap_compose im g
                \<and> crop_panorama im 360 pitch fov = wrap_compose im g
           else \<not> (left g < 0 \<or> right g > img_w im)
                \<and> crop_panorama im 0 pitch fov = direct_crop im g
                \<and> crop_panorama im 360 pitch fov = direct_crop im g))"
proof -
  have a: "\<bar>img_w im\<bar> < 2 ^ 53" and nz: "img_w im \<noteq> 0" using assms by simp_all
  have same: "crop_panorama im 360 pitch fov = crop_panorama im 0 pitch fov"
    using a by (rule crop_panorama_heading_0_360)
  have c0: "center_x_of (img_w im) 0 = Inr 0"
    using center_x_heading_0_360(2) [OF a nz] .
  have c360: "center_x_of (img_w im) 360 = Inr 0"
    using center_x_heading_0_360(1) [OF a] c0 by simp
  have geo: "crop_geometry (img_w im) (img_h im) 360 pitch fov
             = crop_geometry (img_w im) (img_h im) 0 pitch fov"
    using a by (rule crop_geometry_heading_0_360)
  have wrap: "left g < 0
          \<and> (\<exists>out. crop_panorama im 0 pitch fov = Inr out
                \<and> wrap_compose im g = Inr out
                \<and> img_w out = crop_w g \<and> img_h out = bottom g - top_y g
                \<and> (\<forall>x y. 0 \<le> x \<and> x < - left g \<and> 0 \<le> y \<and> y < bottom g - top_y g \<longrightarrow>
                      getpixel out x y = getpixel im (img_w im + left g + x) (top_y g + y))
                \<and> (\<forall>x y. - left g \<le> x \<and> x < right g - left g
                          \<and> 0 \<le> y \<and> y < bottom g - top_y g \<longrightarrow>
                      getpixel out x y = getpixel im (x + left g) (top_y g + y)))"
    if g: "crop_geometry (img_w im) (img_h im) 0 pitch fov = Inr g"
      and cw: "2 \<le> crop_w g" and tb: "top_y g \<le> bottom g" for g
  proof -
    note f = crop_geometry_fields [OF g]
    have cx: "center_x g = 0" using f(6) c0 by simp
    have h1: "1 \<le> crop_w g div 2" using cw by simp
    have l: "left g < 0" using f(1) cx h1 by simp
    have r: "0 \<le> right g" using f(2) cx h1 by simp
    have w: "right g - left g \<le> crop_w g" using f(1,2) cx by simp
    have cp: "crop_panorama im 0 pitch fov = wrap_compose im g"
      using l by (simp add: crop_panorama_def g bindE_def)
    show ?thesis using wrap_left_pixels [OF l r tb w, of im] l cp by simp
  qed
  have branch: "(if 2 \<le> crop_w g
           then left g < 0
                \<and> crop_panorama im 0 pitch fov = wrap_compose im g
                \<and> crop_panorama im 360 pitch fov = wrap_compose im g
           else \<not> (left g < 0 \<or> right g > img_w im)
                \<and> crop_panorama im 0 pitch fov = direct_crop im g
                \<and> crop_panorama im 360 pitch fov = direct_crop im g)"
    if g: "crop_geometry (img_w im) (img_h im) 0 pitch fov = Inr g" for g
  proof (cases "2 \<le> crop_w g")
    case True
    note f = crop_geometry_fields [OF g]
    have cx: "center_x g = 0" using f(6) c0 by simp
    have "1 \<le> crop_w g div 2" using True by simp
    then have l: "left g < 0" using f(1) cx by simp
    then have "crop_panorama im 0 pitch fov = wrap_compose im g"
      by (simp add: crop_panorama_def g bindE_def)
    then show ?thesis using True l same by simp
  next
    case False
    note f = crop_geometry_fields [OF g]
    have cx: "center_x g = 0" using f(6) c0 by simp
    have "crop_w g div 2 \<le> 0" using False by simp
    then have l: "0 \<le> left g" and r: "right g \<le> img_w im"
      using f(1,2) cx assms(1) by simp_all
    then have "crop_panorama im 0 pitch fov = direct_crop im g"
      by (simp add: crop_panorama_def g bindE_def)
    then show ?thesis using False l r same by simp
  qed
  show ?thesis using same c0 c360 geo wrap branch by blast
qed

text \<open>
  Witness for C5: the \<open>8 \<times> 4\<close> test panorama at pitch 0. With fov 90 the output is 2
  wide, its first column is column 7 of the panorama and its second is column 0; with
  fov 45 the crop is 1 pixel wide and both headings take the direct branch.
\<close>

theorem heading_0_360_same_crop_witness:
  "(0::int) < img_w (test_image 8 4) \<and> img_w (test_image 8 4) < 2 ^ 53
   \<and> crop_panorama (test_image 8 4) 360 0 90 = crop_panorama (test_image 8 4) 0 0 90
   \<and> (\<exists>out. crop_panorama (test_image 8 4) 0 0 90 = Inr out
          \<and> img_w out = 2 \<and> img_h out = 2
          \<and> getpixel out 0 0 = (7, 1, 255) \<and> getpixel out 1 0 = (0, 1, 255))
   \<and> (\<exists>g. crop_geometry 8 4 0 0 90 = Inr g \<and> 2 \<le> crop_w g \<and> left g < 0
          \<and> crop_panorama (test_image 8 4) 360 0 90 = wrap_compose (test_image 8 4) g)
   \<and> (\<exists>g. crop_geometry 8 4 0 0 45 = Inr g \<and> crop_w g < 2
          \<and> \<not> (left g < 0 \<or> right g > 8)
          \<and> crop_panorama (test_image 8 4) 360 0 45 = direct_crop (test_image 8 4) g)"
proof -
  let ?im = "test_image 8 4"
  let ?g = "\<lparr> center_x = 0, center_y = 2, crop_w = 2, crop_h = 2,
            left = - 1, right = 1, top_y = 1, bottom = 3 \<rparr> :: crop_box"
  let ?g1 = "\<lparr> center_x = 0, center_y = 2, crop_w = 1, crop_h = 1,
            left = 0, right = 0, top_y = 2, bottom = 2 \<rparr> :: crop_box"
  have w: "(0::int) < img_w ?im" "img_w ?im < 2 ^ 53" by (simp_all add: test_image_def)
  have g: "crop_geometry (img_w ?im) (img_h ?im) 0 0 90 = Inr ?g"
    by (simp add: test_image_def geometry_8_4_0_90)
  have g1: "crop_geometry (img_w ?im) (img_h ?im) 0 0 45 = Inr ?g1"
    by (simp add: test_image_def geometry_8_4_0_45)
  from heading_0_360_same_crop [OF w, of 0 90]
  have same: "crop_panorama ?im 360 0 90 = crop_panorama ?im 0 0 90"
    and wr: "\<And>g. crop_geometry (img_w ?im) (img_h ?im) 0 0 90 = Inr g
              \<and> 2 \<le> crop_w g \<and> top_y g \<le> bottom g \<Longrightarrow>
          left g < 0
          \<and> (\<exists>out. crop_panorama ?im 0 0 90 = Inr out
                \<and> wrap_compose ?im g = Inr out
                \<and> img_w out = crop_w g \<and> img_h out = bottom g - top_y g
                \<and> (\<forall>x y. 0 \<le> x \<and> x < - left g \<and> 0 \<le> y \<and> y < bottom g - top_y g \<longrightarrow>
                      getpixel out x y = getpixel ?im (img_w ?im + left g + x) (top_y g + y))
                \<and> (\<forall>x y. - left g \<le> x \<and> x < right g - left g
                          \<and> 0 \<le> y \<and> y < bottom g - top_y g \<longrightarrow>
                      getpixel out x y = getpixel ?im (x + left g) (top_y g + y)))"
    and br: "\<And>g. crop_geometry (img_w ?im) (img_h ?im) 0 0 90 = Inr g \<Longrightarrow>
          (if 2 \<le> crop_w g
           then left g < 0
                \<and> crop_panorama ?im 0 0 90 = wrap_compose ?im g
                \<and> crop_panorama ?im 360 0 90 = wrap_compose ?im g
           else \<not> (left g < 0 \<or> right g > img_w ?im)
                \<and> crop_panorama ?im 0 0 90 = direct_crop ?im g
                \<and> crop_panorama ?im 360 0 90 = direct_crop ?im g)"
    by blast+
  from heading_0_360_same_crop [OF w, of 0 45]
  have br1: "\<And>g. crop_geometry (img_w ?im) (img_h ?im) 0 0 45 = Inr g \<Longrightarrow>
          (if 2 \<le> crop_w g
           then left g < 0
                \<and> crop_panorama ?im 0 0 45 = wrap_compose ?im g
                \<and> crop_panorama ?im 360 0 45 = wrap_compose ?im g
           else \<not> (left g < 0 \<or> right g > img_w ?im)
                \<and> crop_panorama ?im 0 0 45 = direct_crop ?im g
                \<and> crop_panorama ?im 360 0 45 = direct_crop ?im g)"
    by blast
  from wr [of ?g] g obtain out where out: "crop_panorama ?im 0 0 90 = Inr out"
    "img_w out = 2" "img_h out = 2"
    "\<forall>x y. 0 \<le> x \<and> x < 1 \<and> 0 \<le> y \<and> y < 2 \<longrightarrow>
        getpixel out x y = getpixel ?im (img_w ?im + - 1 + x) (1 + y)"
    "\<forall>x y. 1 \<le> x \<and> x < 2 \<and> 0 \<le> y \<and> y < 2 \<longrightarrow>
        getpixel out x y = getpixel ?im (x + - 1) (1 + y)"
    by auto
  have p0: "getpixel out 0 0 = (7, 1, 255)"
    using out(4) by (simp add: test_image_def getpixel_mk_image)
  have p1: "getpixel out 1 0 = (0, 1, 255)"
    using out(5) by (simp add: test_image_def getpixel_mk_image)
  have b90: "\<exists>g. crop_geometry 8 4 0 0 90 = Inr g \<and> 2 \<le> crop_w g \<and> left g < 0
          \<and> crop_panorama ?im 360 0 90 = wrap_compose ?im g"
    using br [OF g] by (intro exI [of _ ?g]) (simp add: geometry_8_4_0_90)
  have b45: "\<exists>g. crop_geometry 8 4 0 0 45 = Inr g \<and> crop_w g < 2
          \<and> \<not> (left g < 0 \<or> right g > 8)
          \<and> crop_panorama ?im 360 0 45 = direct_crop ?im g"
    using br1 [OF g1] by (intro exI [of _ ?g1]) (simp add: geometry_8_4_0_45)
  show ?thesis using w same out(1,2,3) p0 p1 b90 b45 by simp
qed

text \<open>
  Claim C6: for every heading and fov such that \<open>left = center_x - crop_w div 2 \<ge> 0\<close> and
  \<open>right = center_x + crop_w div 2 \<le> w\<close>, the crop algorithm, which splits and composes
  when the crop crosses the seam, gives exactly the direct single crop of
  \<open>(left, top, right, bottom)\<close>: the same image, or the same exception when the box is
  inverted. When the box is not inverted the output is \<open>right - left\<close> wide and
  \<open>bottom - top\<close> high and its pixel at \<open>(x, y)\<close> is the panorama's pixel at
  \<open>(left + x, top + y)\<close>. On such an input that touches the seam (\<open>right = w\<close>) with an
  even \<open>crop_w\<close>, the body of the wraparound branch, run on its own, gives this crop too.
\<close>

theorem no_wrap_direct_crop:
  assumes g: "crop_geometry (img_w im) (img_h im) heading pitch fov = Inr g"
    and l: "0 \<le> left g" and r: "right g \<le> img_w im"
  shows "left g = center_x g - crop_w g div 2 \<and> right g = center_x g + crop_w g div 2
         \<and> crop_panorama im heading pitch fov = img_crop im (left g, top_y g, right g, bottom g)
         \<and> crop_panorama im heading pitch fov = direct_crop im g
         \<and> (left g \<le> right g \<and> top_y g \<le> bottom g \<longrightarrow>
              (\<exists>out. crop_panorama im heading pitch fov = Inr out
                 \<and> img_w out = right g - left g \<and> img_h out = bottom g - top_y g
                 \<and> (\<forall>x y. 0 \<le> x \<and> x < right g - left g \<and> 0 \<le> y \<and> y < bottom g - top_y g \<longrightarrow>
                       getpixel out x y = getpixel im (left g + x) (top_y g + y))))
         \<and> (right g = img_w im \<and> even (crop_w g) \<longrightarrow> wrap_compose im g = direct_crop im g)"
proof -
  note f = crop_geometry_fields [OF g]
  have a: "crop_panorama im heading pitch fov = direct_crop im g"
    using l r by (simp add: crop_panorama_def g bindE_def)
  have b: "wrap_compose im g = direct_crop im g" if "right g = img_w im" "even (crop_w g)"
  proof -
    have "crop_w g = right g - left g" using f(1,2) that(2) by (auto elim: evenE)
    then show ?thesis using l that(1) by (intro wrap_compose_seam)
  qed
  have c: "\<exists>out. crop_panorama im heading pitch fov = Inr out
                 \<and> img_w out = right g - left g \<and> img_h out = bottom g - top_y g
                 \<and> (\<forall>x y. 0 \<le> x \<and> x < right g - left g \<and> 0 \<le> y \<and> y < bottom g - top_y g \<longrightarrow>
                       getpixel out x y = getpixel im (left g + x) (top_y g + y))"
    if "left g \<le> right g \<and> top_y g \<le> bottom g"
    using that a by (simp add: direct_crop_def img_crop_ok getpixel_mk_image)
  show ?thesis using a b c f(1,2) by (simp add: direct_crop_def)
qed

text \<open>
  Witness for C6: the \<open>8 \<times> 4\<close> test panorama at heading 270, fov 180, where
  \<open>left = 4\<close>, \<open>right = 8 = w\<close> and \<open>crop_w = 4\<close>: the output is the right half of the
  panorama.
\<close>

theorem no_wrap_direct_crop_witness:
  "(\<exists>g. crop_geometry (img_w (test_image 8 4)) (img_h (test_image 8 4)) 270 0 180 = Inr g
       \<and> 0 \<le> left g \<and> right g \<le> img_w (test_image 8 4)
       \<and> left g \<le> right g \<and> top_y g \<le> bottom g
       \<and> right g = img_w (test_image 8 4) \<and> even (crop_w g)
       \<and> crop_panorama (test_image 8 4) 270 0 180
         = img_crop (test_image 8 4) (left g, top_y g, right g, bottom g)
       \<and> wrap_compose (test_image 8 4) g = direct_crop (test_image 8 4) g)
   \<and> (\<exists>out. crop_panorama (test_image 8 4) 270 0 180 = Inr out
         \<and> img_w out = 4 \<and> img_h out = 4
         \<and> getpixel out 0 0 = (4, 0, 255) \<and> getpixel out 3 3 = (7, 3, 255))"
proof -
  let ?im = "test_image 8 4"
  let ?g = "\<lparr> center_x = 6, center_y = 2, crop_w = 4, crop_h = 4,
            left = 4, right = 8, top_y = 0, bottom = 4 \<rparr> :: crop_box"
  have g: "crop_geometry (img_w ?im) (img_h ?im) 270 0 180 = Inr ?g"
    by (simp add: test_image_def geometry_8_4_270_180)
  have l: "0 \<le> left ?g" and r: "right ?g \<le> img_w ?im" by (simp_all add: test_image_def)
  note t = no_wrap_direct_crop [OF g l r]
  from t have "\<exists>out. crop_panorama ?im 270 0 180 = Inr out
      \<and> img_w out = 4 \<and> img_h out = 4
      \<and> (\<forall>x y. 0 \<le> x \<and> x < 4 \<and> 0 \<le> y \<and> y < 4 \<longrightarrow>
            getpixel out x y = getpixel ?im (4 + x) y)"
    by (elim conjE) simp
  then obtain out where out: "crop_panorama ?im 270 0 180 = Inr out"
    "img_w out = 4" "img_h out = 4"
    "\<forall>x y. 0 \<le> x \<and> x < 4 \<and> 0 \<le> y \<and> y < 4 \<longrightarrow>
        getpixel out x y = getpixel ?im (4 + x) y"
    by blast
  have p0: "getpixel out 0 0 = (4, 0, 255)"
    using out(4) by (simp add: test_image_def getpixel_mk_image)
  have p1: "getpixel out 3 3 = (7, 3, 255)"
    using out(4) by (simp add: test_image_def getpixel_mk_image)
  have "\<exists>g. crop_geometry (img_w ?im) (img_h ?im) 270 0 180 = Inr g
       \<and> 0 \<le> left g \<and> right g \<le> img_w ?im
       \<and> left g \<le> right g \<and> top_y g \<le> bottom g
       \<and> right g = img_w ?im \<and> even (crop_w g)
       \<and> crop_panorama ?im 270 0 180 = img_crop ?im (left g, top_y g, right g, bottom g)
       \<and> wrap_compose ?im g = direct_crop ?im g"
    using t g by (intro exI [of _ ?g]) (simp add: test_image_def)
  then show ?thesis using out(1,2,3) p0 p1 by blast
qed

text \<open>
  Claim C7: for every pitch in \<open>[-90, 90]\<close>, the poles included, the computed \<open>top\<close>
  and \<open>bottom\<close> satisfy \<open>0 \<le> top \<le> bottom \<le> h\<close> and the output image is \<open>bottom - top\<close>
  high. The panorama has a width \<open>0 < w\<close>, sizes and heading are below \<open>2\<^sup>5\<^sup>3\<close>, and the
  field of view is an angle \<open>0 \<le> fov\<close>. That the height may be smaller than \<open>crop_w\<close> is
  shown by the witness.
\<close>

theorem pole_clamping:
  assumes "0 < img_w im" "img_w im < 2 ^ 53" "0 \<le> img_h im" "img_h im < 2 ^ 53"
    and "\<bar>heading\<bar> < 2 ^ 53" and "- 90 \<le> pitch" "pitch \<le> 90"
    and "0 \<le> fov" "fov < 2 ^ 53"
  shows "\<exists>g out. crop_geometry (img_w im) (img_h im) heading pitch fov = Inr g
           \<and> 0 \<le> top_y g \<and> top_y g \<le> bottom g \<and> bottom g \<le> img_h im
           \<and> crop_panorama im heading pitch fov = Inr out
           \<and> img_h out = bottom g - top_y g"
proof -
  let ?w = "img_w im" and ?h = "img_h im"
  have wa: "\<bar>?w\<bar> < 2 ^ 53" "?w \<noteq> 0" "0 \<le> ?w" using assms by simp_all
  obtain cx where cx: "center_x_of ?w heading = Inr cx"
    using center_x_of_ok [OF assms(5) wa(1,2)] by simp
  obtain cy where cy: "center_y_of ?h pitch = Inr cy" "0 \<le> cy" "cy \<le> ?h"
    using center_y_range [OF assms(6,7,3,4)] by blast
  obtain cw where cw: "crop_w_of ?w fov = Inr cw" "0 \<le> cw"
    using crop_w_nonneg [OF assms(8,9) wa(3) assms(2)] by blast
  define g where "g = \<lparr> center_x = cx, center_y = cy, crop_w = cw, crop_h = cw,
              left = cx - cw div 2, right = cx + cw div 2,
              top_y = max 0 (cy - cw div 2), bottom = min ?h (cy + cw div 2) \<rparr>"
  have g: "crop_geometry ?w ?h heading pitch fov = Inr g"
    by (simp add: crop_geometry_def cx cy cw bindE_def Let_def g_def)
  have half: "0 \<le> cw div 2" using cw(2) by simp
  have t0: "0 \<le> top_y g" by (simp add: g_def)
  have tb: "top_y g \<le> bottom g" using cy(2,3) half by (simp add: g_def)
  have bh: "bottom g \<le> ?h" by (simp add: g_def)
  have "0 \<le> crop_w g" using cw(2) by (simp add: g_def)
  from crop_panorama_size [OF g assms(1) this tb]
  obtain out where "crop_panorama im heading pitch fov = Inr out"
    "img_h out = bottom g - top_y g" by blast
  then show ?thesis using g t0 tb bh by blast
qed

text \<open>
  Witness for C7: the \<open>8 \<times> 4\<close> test panorama at the pole, pitch 90, with fov 90:
  \<open>crop_w = 2\<close> and the output is 1 pixel high.
\<close>

theorem pole_clamping_witness:
  "(0::int) < img_w (test_image 8 4) \<and> img_w (test_image 8 4) < 2 ^ 53
   \<and> 0 \<le> img_h (test_image 8 4) \<and> img_h (test_image 8 4) < 2 ^ 53
   \<and> \<bar>0::int\<bar> < 2 ^ 53 \<and> (- 90 :: int) \<le> 90 \<and> (90::int) \<le> 90 \<and> (0::int) \<le> 90
   \<and> (90::int) < 2 ^ 53
   \<and> (\<exists>g out. crop_geometry 8 4 0 90 90 = Inr g
         \<and> 0 \<le> top_y g \<and> top_y g \<le> bottom g \<and> bottom g \<le> 4
         \<and> crop_panorama (test_image 8 4) 0 90 90 = Inr out
         \<and> img_h out = bottom g - top_y g \<and> img_h out = 1 \<and> crop_w g = 2)"
  using pole_clamping [of "test_image 8 4" 0 90 90] geometry_8_4_pole
  by (auto simp: test_image_def)

section \<open>The claims about the client and the batch layer\<close>

text \<open>
  Claim C1, as stated: in a batch of N locations where one location's coverage check
  raises a transport error, the batch still returns N records, one of them marked
  failed. Counterexample: three locations, the second of which times out. The exception
  leaves the loop: the batch raises it, returns no record (the first location's record is
  lost with it), and the third location is never requested.
\<close>

theorem coverage_batch_continues_counterexample:
  "check_coverage_batch test_env
     [test_location ''b'' 2 None, test_location ''a'' 1 None, test_location ''c'' 3 None]
     None (Some ''key'') (1 / 10) empty_world
   = (Inl (RequestException ''Read timed out.''),
      \<lparr> files = {}, calls = [MetadataGet 2 77 ''key'', MetadataGet 1 77 ''key''] \<rparr>)"
  by (simp add: check_coverage_batch_def new_client_def check_coverage_def test_env_def
      test_location_def empty_world_def log_call_def bindE_def coverage_of_response_def
      raise_for_status_def ok_response_def Let_def)

text \<open>
  Claim C1, amended. The answers of the network may depend on the calls made before, so
  the statement follows one run of the batch: the check of a location is made in the world
  in which the locations before it have been requested. When the check of every location
  of \<open>pre\<close> returns at its turn, the batch over \<open>pre\<close> builds one record per location, in
  input order, from the result of that location's check, and this for every output path:
  it returns these records (after writing the table, when a path is given), unless writing
  the table raises. When the check of the next location \<open>bad\<close> then raises \<open>x\<close>, the batch
  over \<open>pre @ bad # post\<close> raises \<open>x\<close>, again for every output path: it returns no
  record, writes no file, and the call log holds exactly one request per location up to
  \<open>bad\<close>, so the locations after it are never requested. The coverage record has no field
  for a failure or an error message.
\<close>

theorem coverage_batch_aborts:
  assumes "new_client e key rl = Inr c"
    and "\<forall>i < length pre. \<exists>r.
           fst (check_coverage e c (loc_lat (pre ! i)) (loc_lon (pre ! i))
                  (after_checks c (take i pre) w)) = Inr r"
  shows "(\<exists>recs. length recs = length pre
            \<and> map cov_location_id recs = map loc_location_id pre
            \<and> (\<forall>i < length pre. \<exists>r.
                  fst (check_coverage e c (loc_lat (pre ! i)) (loc_lon (pre ! i))
                         (after_checks c (take i pre) w)) = Inr r
                  \<and> recs ! i = coverage_row (pre ! i) r)
            \<and> check_coverage_batch e pre out key rl w
              = (case out of
                   None \<Rightarrow> (Inr recs, after_checks c pre w)
                 | Some p \<Rightarrow>
                     if p = [] then (Inr recs, after_checks c pre w)
                     else (case write_file e p of
                             Some x \<Rightarrow> (Inl x, after_checks c pre w)
                           | None \<Rightarrow> (Inr recs, add_file p (after_checks c pre w)))))
       \<and> (fst (check_coverage e c (loc_lat bad) (loc_lon bad) (after_checks c pre w)) = Inl x \<longrightarrow>
            check_coverage_batch e (pre @ bad # post) out key rl w
            = (Inl x, after_checks c (pre @ [bad]) w)
            \<and> files (after_checks c (pre @ [bad]) w) = files w
            \<and> calls (after_checks c (pre @ [bad]) w)
              = calls w @ map (\<lambda>row. MetadataGet (loc_lat row) (loc_lon row) (api_key c))
                            (pre @ [bad]))"
proof -
  from coverage_loop_run [OF assms(2), of "[]"]
  obtain rs where rs: "length rs = length pre"
    "\<forall>i < length pre.
        fst (check_coverage e c (loc_lat (pre ! i)) (loc_lon (pre ! i))
               (after_checks c (take i pre) w)) = Inr (rs ! i)"
    "coverage_loop e c pre [] w
     = (Inr (map (\<lambda>(row, r). coverage_row row r) (zip pre rs)), after_checks c pre w)"
    by auto
  let ?recs = "map (\<lambda>(row, r). coverage_row row r) (zip pre rs)"
  have l: "length ?recs = length pre" using rs(1) by simp
  have ids: "map cov_location_id ?recs = map loc_location_id pre"
    using rs(1) by (intro coverage_rows_ids) simp
  have nth: "\<forall>i < length pre. \<exists>r.
                  fst (check_coverage e c (loc_lat (pre ! i)) (loc_lon (pre ! i))
                         (after_checks c (take i pre) w)) = Inr r
                  \<and> ?recs ! i = coverage_row (pre ! i) r"
    using rs(1,2) by simp
  have batch: "check_coverage_batch e pre out key rl w
              = (case out of
                   None \<Rightarrow> (Inr ?recs, after_checks c pre w)
                 | Some p \<Rightarrow>
                     if p = [] then (Inr ?recs, after_checks c pre w)
                     else (case write_file e p of
                             Some x \<Rightarrow> (Inl x, after_checks c pre w)
                           | None \<Rightarrow> (Inr ?recs, add_file p (after_checks c pre w))))"
    by (simp add: check_coverage_batch_def assms(1) rs(3) split: option.splits)
  have a: "\<exists>recs. length recs = length pre
            \<and> map cov_location_id recs = map loc_location_id pre
            \<and> (\<forall>i < length pre. \<exists>r.
                  fst (check_coverage e c (loc_lat (pre ! i)) (loc_lon (pre ! i))
                         (after_checks c (take i pre) w)) = Inr r
                  \<and> recs ! i = coverage_row (pre ! i) r)
            \<and> check_coverage_batch e pre out key rl w
              = (case out of
                   None \<Rightarrow> (Inr recs, after_checks c pre w)
                 | Some p \<Rightarrow>
                     if p = [] then (Inr recs, after_checks c pre w)
                     else (case write_file e p of
                             Some x \<Rightarrow> (Inl x, after_checks c pre w)
                           | None \<Rightarrow> (Inr recs, add_file p (after_checks c pre w))))"
    using l ids nth batch by (intro exI [of _ ?recs] conjI)
  have b: "check_coverage_batch e (pre @ bad # post) out key rl w
            = (Inl x, after_checks c (pre @ [bad]) w)"
    if "fst (check_coverage e c (loc_lat bad) (loc_lon bad) (after_checks c pre w)) = Inl x"
  proof -
    have "check_coverage e c (loc_lat bad) (loc_lon bad) (after_checks c pre w)
          = (Inl x, after_checks c (pre @ [bad]) w)"
      using check_coverage_pair [of e c "loc_lat bad" "loc_lon bad" "after_checks c pre w"] that
      by (simp add: after_checks_snoc)
    then have "coverage_loop e c (pre @ bad # post) [] w = (Inl x, after_checks c (pre @ [bad]) w)"
      by (simp add: coverage_loop_append rs(3))
    then show ?thesis by (simp add: check_coverage_batch_def assms(1))
  qed
  show ?thesis using a b by simp
qed

text \<open>
  Witness for C1: the environment in which only the first request is answered, and a
  batch that asks for the same coordinates twice: the first check returns, the second one
  times out, and the third location is never requested.
\<close>

theorem coverage_batch_aborts_witness:
  "new_client flaky_env (Some ''key'') (1 / 10) = Inr \<lparr> api_key = ''key'', rate_limit = 1 / 10 \<rparr>
   \<and> (\<exists>r. fst (check_coverage flaky_env \<lparr> api_key = ''key'', rate_limit = 1 / 10 \<rparr> 2 77
                 empty_world) = Inr r)
   \<and> fst (check_coverage flaky_env \<lparr> api_key = ''key'', rate_limit = 1 / 10 \<rparr> 2 77
            (after_checks \<lparr> api_key = ''key'', rate_limit = 1 / 10 \<rparr>
               [test_location ''a'' 2 None] empty_world))
     = Inl (RequestException ''Read timed out.'')
   \<and> (\<exists>recs. map cov_location_id recs = [''a'']
          \<and> check_coverage_batch flaky_env [test_location ''a'' 2 None] (Some ''out/cov.csv'')
              (Some ''key'') (1 / 10) empty_world
            = (Inr recs, \<lparr> files = {''out/cov.csv''}, calls = [MetadataGet 2 77 ''key''] \<rparr>))
   \<and> check_coverage_batch flaky_env
       ([test_location ''a'' 2 None] @ test_location ''a'' 2 None # [test_location ''c'' 3 None])
       (Some ''out/cov.csv'') (Some ''key'') (1 / 10) empty_world
     = (Inl (RequestException ''Read timed out.''),
        \<lparr> files = {}, calls = [MetadataGet 2 77 ''key'', MetadataGet 2 77 ''key''] \<rparr>)"
proof -
  let ?c = "\<lparr> api_key = ''key'', rate_limit = 1 / 10 \<rparr>"
  let ?a = "test_location ''a'' 2 None"
  have k: "new_client flaky_env (Some ''key'') (1 / 10) = Inr ?c"
    by (simp add: new_client_def)
  have ok: "\<forall>i < length [?a]. \<exists>r.
         fst (check_coverage flaky_env ?c (loc_lat ([?a] ! i)) (loc_lon ([?a] ! i))
                (after_checks ?c (take i [?a]) empty_world)) = Inr r"
    by (simp add: check_coverage_def flaky_env_def test_location_def bindE_def empty_world_def
        coverage_of_response_def raise_for_status_def ok_response_def Let_def after_checks_def)
  have bad: "fst (check_coverage flaky_env ?c (loc_lat ?a) (loc_lon ?a)
                 (after_checks ?c [?a] empty_world))
             = Inl (RequestException ''Read timed out.'')"
    by (simp add: check_coverage_def flaky_env_def test_location_def bindE_def Let_def
        after_checks_def)
  have ok0: "\<exists>r. fst (check_coverage flaky_env ?c 2 77 empty_world) = Inr r"
    using ok by (simp add: test_location_def)
  have wf: "write_file flaky_env ''out/cov.csv'' = None"
    by (simp add: flaky_env_def test_env_def)
  show ?thesis
    using coverage_batch_aborts [OF k ok, of "Some ''out/cov.csv''" ?a
        "RequestException ''Read timed out.''" "[test_location ''c'' 3 None]"] bad k ok0 wf
    by (auto simp: empty_world_def test_location_def after_checks_def add_file_def)
qed




text \<open>
  Claim C8: on a 2xx metadata response with a JSON body, \<^verbatim>\<open>check_coverage\<close> raises
  nothing and returns a result whose \<open>has_coverage\<close> is true exactly when the status
  field is \<open>''OK''\<close>; the result keeps the status (\<open>''UNKNOWN''\<close> when the field is
  absent), the panorama identifier and the date of the response.
\<close>

theorem check_coverage_status:
  assumes "http_get e (calls w) (MetadataGet lat lon (api_key c)) = Inr resp"
    and "200 \<le> status_code resp" "status_code resp < 300"
    and "json_body resp = Some data"
  shows "\<exists>r. fst (check_coverage e c lat lon w) = Inr r
           \<and> cr_has_coverage r = (data ''status'' = Some ''OK'')
           \<and> cr_has_coverage r = (cr_status r = ''OK'')
           \<and> cr_status r = (case data ''status'' of None \<Rightarrow> ''UNKNOWN'' | Some s \<Rightarrow> s)
           \<and> cr_pano_id r = data ''pano_id'' \<and> cr_capture_date r = data ''date''
           \<and> cr_lat r = lat \<and> cr_lon r = lon"
  using assms
  by (auto simp: check_coverage_def Let_def bindE_def coverage_of_response_def
      raise_for_status_def split: option.splits)

text \<open>
  Witness for C8: a \<open>ZERO_RESULTS\<close> response gives \<open>has_coverage = False\<close> with the status
  kept, an \<open>OK\<close> response gives \<open>has_coverage = True\<close>.
\<close>

theorem check_coverage_status_witness:
  "(\<exists>r. fst (check_coverage test_env \<lparr> api_key = ''key'', rate_limit = 1 / 10 \<rparr> 2 77
              empty_world) = Inr r
        \<and> cr_has_coverage r = False \<and> cr_status r = ''ZERO_RESULTS'')
   \<and> (\<exists>r. fst (check_coverage test_env \<lparr> api_key = ''key'', rate_limit = 1 / 10 \<rparr> 5 77
              empty_world) = Inr r
        \<and> cr_has_coverage r = True \<and> cr_status r = ''OK'' \<and> cr_pano_id r = Some ''pano1'')"
proof -
  let ?c = "\<lparr> api_key = ''key'', rate_limit = 1 / 10 \<rparr>"
  let ?zero = "ok_response [''status'' \<mapsto> ''ZERO_RESULTS'']"
  let ?ok = "ok_response [''status'' \<mapsto> ''OK'', ''pano_id'' \<mapsto> ''pano1'']"
  have a: "http_get test_env (calls empty_world) (MetadataGet 2 77 (api_key ?c)) = Inr ?zero"
    by (simp add: test_env_def)
  have b: "http_get test_env (calls empty_world) (MetadataGet 5 77 (api_key ?c)) = Inr ?ok"
    by (simp add: test_env_def)
  have s: "200 \<le> status_code ?zero" "status_code ?zero < 300"
    "json_body ?zero = Some [''status'' \<mapsto> ''ZERO_RESULTS'']"
    "200 \<le> status_code ?ok" "status_code ?ok < 300"
    "json_body ?ok = Some [''status'' \<mapsto> ''OK'', ''pano_id'' \<mapsto> ''pano1'']"
    by (simp_all add: ok_response_def)
  show ?thesis
    using check_coverage_status [OF a s(1,2,3)] check_coverage_status [OF b s(4,5,6)]
    by auto
qed

text \<open>
  Claim C9: the output file name is a function of the location identifier, the heading
  and the pitch, \<^verbatim>\<open>{location_id}_h{heading:03d}_p{pitch:+03d}.jpg\<close>: for location
  \<open>''loc_00042''\<close>, heading 90 and pitch 0 it is \<open>''loc_00042_h090_p+00.jpg''\<close>; for a
  heading from 0 to 999 and a pitch from -99 to 99 it is the identifier, \<open>''_h''\<close>, the three
  digits of the heading, \<open>''_p''\<close>, the sign and the two digits of the pitch, and
  \<open>''.jpg''\<close>. The same name, under the output directory, is used
  \<^item> by the direct fetcher: when \<open>download_location_images\<close> returns, it returns one
    result per heading, and a successful result carries this path and the file at this path
    exists afterwards; whether it returns or raises, it creates no file under another name;
  \<^item> by the high-resolution fetcher \<open>download_location_hires\<close>, in the same way;
  \<^item> by the batch layer: the expected files are these paths, a location is skipped by
    the direct batch exactly when the files at these paths all exist, by the
    high-resolution batch (for a location with a panorama identifier) exactly when they all
    exist, and the records of a skipped location carry these paths.
\<close>

theorem output_filename:
  "image_filename ''loc_00042'' 90 0 = ''loc_00042_h090_p+00.jpg''
   \<and> (0 \<le> heading \<and> heading \<le> 999 \<and> - 99 \<le> pitch \<and> pitch \<le> 99 \<longrightarrow>
        image_filename location_id heading pitch
        = location_id @ ''_h''
          @ [digit_char (nat heading div 100), digit_char (nat heading div 10 mod 10),
             digit_char (nat heading mod 10)]
          @ ''_p''
          @ [if pitch < 0 then CHR ''-'' else CHR ''+'',
             digit_char (nat \<bar>pitch\<bar> div 10), digit_char (nat \<bar>pitch\<bar> mod 10)]
          @ ''.jpg'')
   \<and> expected_files od location_id pitch hs
       = map (\<lambda>h. path_join od (image_filename location_id h pitch)) hs
   \<and> (download_location_images e c lat lon location_id od hso pitch w = (Inr rs, w1) \<longrightarrow>
        list_all2 (\<lambda>r h. ir_heading r = h
                     \<and> (ir_success r \<longrightarrow>
                          ir_image_path r
                            = Some (path_join od (image_filename location_id h pitch))
                          \<and> path_join od (image_filename location_id h pitch) \<in> files w1))
          rs (headings_or_default hso))
   \<and> files (snd (download_location_images e c lat lon location_id od hso pitch w))
       \<subseteq> files w \<union> (\<lambda>h. path_join od (image_filename location_id h pitch))
                        ` set (headings_or_default hso)
   \<and> list_all2 (\<lambda>r h. ir_heading r = h
                  \<and> (ir_success r \<longrightarrow>
                       ir_image_path r
                         = Some (path_join od (image_filename location_id h pitch))
                       \<and> path_join od (image_filename location_id h pitch)
                           \<in> files (snd (download_location_hires e pid location_id od hso pitch
                                           fov zoom w))))
       (fst (download_location_hires e pid location_id od hso pitch fov zoom w))
       (headings_or_default hso)
   \<and> files (snd (download_location_hires e pid location_id od hso pitch fov zoom w))
       \<subseteq> files w \<union> (\<lambda>h. path_join od (image_filename location_id h pitch))
                        ` set (headings_or_default hso)
   \<and> (images_batch_row e c od hs pitch True row w = (Inr (skip_records row od pitch hs), w))
       = (\<forall>h \<in> set hs. path_join od (image_filename (loc_location_id row) h pitch) \<in> files w)
   \<and> (\<not> pano_missing (loc_pano_id row) \<longrightarrow>
        (hires_batch_row e od hs pitch fov zoom True row w = (skip_records row od pitch hs, w))
        = (\<forall>h \<in> set hs. path_join od (image_filename (loc_location_id row) h pitch)
                           \<in> files w))
   \<and> map dl_image_path (skip_records row od pitch hs)
       = map (\<lambda>h. Some (path_join od (image_filename (loc_location_id row) h pitch))) hs"
proof -
  have a: "image_filename location_id heading pitch
        = location_id @ ''_h''
          @ [digit_char (nat heading div 100), digit_char (nat heading div 10 mod 10),
             digit_char (nat heading mod 10)]
          @ ''_p''
          @ [if pitch < 0 then CHR ''-'' else CHR ''+'',
             digit_char (nat \<bar>pitch\<bar> div 10), digit_char (nat \<bar>pitch\<bar> mod 10)]
          @ ''.jpg''"
    if "0 \<le> heading \<and> heading \<le> 999 \<and> - 99 \<le> pitch \<and> pitch \<le> 99"
    using that by (simp add: image_filename_def format_heading format_pitch)
  have b: "expected_files od location_id pitch hs
       = map (\<lambda>h. path_join od (image_filename location_id h pitch)) hs" for hs location_id
    by (simp add: expected_files_def expected_file_def)
  have c: "list_all2 (\<lambda>r h. ir_heading r = h
                     \<and> (ir_success r \<longrightarrow>
                          ir_image_path r
                            = Some (path_join od (image_filename location_id h pitch))
                          \<and> path_join od (image_filename location_id h pitch) \<in> files w1))
          rs (headings_or_default hso)"
    if "download_location_images e c lat lon location_id od hso pitch w = (Inr rs, w1)"
  proof -
    from location_images_loop_returns [OF that [unfolded download_location_images_def]]
    have h: "map ir_heading rs = headings_or_default hso"
      and l: "list_all2 (\<lambda>r h. ir_pitch r = pitch
                 \<and> (ir_success r \<longrightarrow>
                      r = image_success lat lon h pitch (expected_file od location_id pitch h)
                      \<and> expected_file od location_id pitch h \<in> files w1))
            rs (headings_or_default hso)"
      by auto
    have len: "length rs = length (headings_or_default hso)" using h by (metis length_map)
    have nth: "ir_heading (rs ! i) = headings_or_default hso ! i" if "i < length rs" for i
      using h that by (metis nth_map)
    show ?thesis
      unfolding list_all2_conv_all_nth
    proof (intro conjI allI impI)
      show "length rs = length (headings_or_default hso)" by (rule len)
    next
      fix i assume i: "i < length rs"
      show "ir_heading (rs ! i) = headings_or_default hso ! i" using nth [OF i] .
    next
      fix i assume i: "i < length rs" and s: "ir_success (rs ! i)"
      from l i s have "rs ! i = image_success lat lon (headings_or_default hso ! i) pitch
                          (expected_file od location_id pitch (headings_or_default hso ! i))"
        by (simp add: list_all2_conv_all_nth)
      then show "ir_image_path (rs ! i)
                 = Some (path_join od (image_filename location_id (headings_or_default hso ! i)
                                         pitch))"
        by (simp add: expected_file_def)
    next
      fix i assume i: "i < length rs" and s: "ir_success (rs ! i)"
      from l i s show "path_join od (image_filename location_id (headings_or_default hso ! i)
                                       pitch) \<in> files w1"
        by (simp add: list_all2_conv_all_nth expected_file_def)
    qed
  qed
  have d: "files (snd (download_location_images e c lat lon location_id od hso pitch w))
       \<subseteq> files w \<union> (\<lambda>h. path_join od (image_filename location_id h pitch))
                        ` set (headings_or_default hso)"
    using location_images_loop_files [of e c lat lon location_id od pitch
        "headings_or_default hso" "[]" w]
    by (simp add: download_location_images_def b)
  have e: "list_all2 (\<lambda>r h. ir_heading r = h
                  \<and> (ir_success r \<longrightarrow>
                       ir_image_path r
                         = Some (path_join od (image_filename location_id h pitch))
                       \<and> path_join od (image_filename location_id h pitch)
                           \<in> files (snd (download_location_hires e pid location_id od hso pitch
                                           fov zoom w))))
       (fst (download_location_hires e pid location_id od hso pitch fov zoom w))
       (headings_or_default hso)"
    using hires_fetch_named [of od location_id pitch e pid hso fov zoom w]
    by (simp add: expected_file_def)
  have f: "files (snd (download_location_hires e pid location_id od hso pitch fov zoom w))
       \<subseteq> files w \<union> (\<lambda>h. path_join od (image_filename location_id h pitch))
                        ` set (headings_or_default hso)"
    using hires_fetch_files [of e pid location_id od hso pitch fov zoom w] by (simp add: b)
  have g: "(images_batch_row e c od hs pitch True row w = (Inr (skip_records row od pitch hs), w))
       = (\<forall>h \<in> set hs. path_join od (image_filename (loc_location_id row) h pitch) \<in> files w)"
    by (simp add: images_row_skip_iff all_exist_expected expected_file_def)
  have h: "(hires_batch_row e od hs pitch fov zoom True row w = (skip_records row od pitch hs, w))
        = (\<forall>h \<in> set hs. path_join od (image_filename (loc_location_id row) h pitch)
                           \<in> files w)"
    if "\<not> pano_missing (loc_pano_id row)"
    using that by (simp add: hires_row_skip_iff all_exist_expected expected_file_def)
  have i: "map dl_image_path (skip_records row od pitch hs)
       = map (\<lambda>h. Some (path_join od (image_filename (loc_location_id row) h pitch))) hs"
    by (simp add: skip_records_fields(1) b)
  show ?thesis
    apply (intro conjI impI)
    apply (rule filename_loc_00042)
    apply (erule a)
    apply (rule b)
    apply (erule c)
    apply (rule d)
    apply (rule e)
    apply (rule f)
    apply (rule g)
    apply (erule h)
    apply (rule i)
    done
qed

text \<open>
  Witness for C9: location \<open>''x''\<close> at heading 5 and pitch -10; both fetchers on location
  \<open>''x''\<close> at heading 0 in the test environment, each writing \<open>''out/x_h000_p+00.jpg''\<close>;
  and the rows of both batches, skipped in a world that holds this file and not skipped in
  the empty world.
\<close>

theorem output_filename_witness:
  "image_filename ''x'' 5 (- 10) = ''x_h005_p-10.jpg''
   \<and> expected_files ''out'' ''x'' 0 [0] = [''out/x_h000_p+00.jpg'']
   \<and> (\<exists>rs w1. download_location_images test_env \<lparr> api_key = ''key'', rate_limit = 1 / 10 \<rparr>
                   2 77 ''x'' ''out'' (Some [0]) 0 empty_world = (Inr rs, w1)
          \<and> map ir_success rs = [True]
          \<and> map ir_image_path rs = [Some ''out/x_h000_p+00.jpg'']
          \<and> ''out/x_h000_p+00.jpg'' \<in> files w1)
   \<and> map ir_success
        (fst (download_location_hires test_env ''pano1'' ''x'' ''out'' (Some [0]) 0 90 3
                empty_world)) = [True]
   \<and> map ir_image_path
        (fst (download_location_hires test_env ''pano1'' ''x'' ''out'' (Some [0]) 0 90 3
                empty_world)) = [Some ''out/x_h000_p+00.jpg'']
   \<and> ''out/x_h000_p+00.jpg''
        \<in> files (snd (download_location_hires test_env ''pano1'' ''x'' ''out'' (Some [0]) 0 90 3
                        empty_world))
   \<and> files (snd (download_location_hires test_env ''pano1'' ''x'' ''out'' (Some [0]) 0 90 3
                    empty_world)) \<subseteq> {''out/x_h000_p+00.jpg''}
   \<and> \<not> pano_missing (loc_pano_id (test_location ''x'' 2 (Some ''pano1'')))
   \<and> images_batch_row test_env \<lparr> api_key = ''key'', rate_limit = 1 / 10 \<rparr> ''out'' [0] 0 True
        (test_location ''x'' 2 (Some ''pano1''))
        \<lparr> files = {''out/x_h000_p+00.jpg''}, calls = [] \<rparr>
      = (Inr (skip_records (test_location ''x'' 2 (Some ''pano1'')) ''out'' 0 [0]),
         \<lparr> files = {''out/x_h000_p+00.jpg''}, calls = [] \<rparr>)
   \<and> hires_batch_row test_env ''out'' [0] 0 90 3 True (test_location ''x'' 2 (Some ''pano1''))
        \<lparr> files = {''out/x_h000_p+00.jpg''}, calls = [] \<rparr>
      = (skip_records (test_location ''x'' 2 (Some ''pano1'')) ''out'' 0 [0],
         \<lparr> files = {''out/x_h000_p+00.jpg''}, calls = [] \<rparr>)
   \<and> images_batch_row test_env \<lparr> api_key = ''key'', rate_limit = 1 / 10 \<rparr> ''out'' [0] 0 True
        (test_location ''x'' 2 (Some ''pano1'')) empty_world
      \<noteq> (Inr (skip_records (test_location ''x'' 2 (Some ''pano1'')) ''out'' 0 [0]), empty_world)
   \<and> map dl_image_path (skip_records (test_location ''x'' 2 (Some ''pano1'')) ''out'' 0 [0])
      = [Some ''out/x_h000_p+00.jpg'']"
proof -
  let ?c = "\<lparr> api_key = ''key'', rate_limit = 1 / 10 \<rparr>"
  let ?row = "test_location ''x'' 2 (Some ''pano1'')"
  let ?r = "image_success 2 77 0 0 ''out/x_h000_p+00.jpg''"
  let ?w = "add_file ''out/x_h000_p+00.jpg''
              (log_call (ImageGet 2 77 0 0 90 ''640x640'' ''key'') empty_world)"
  let ?wf = "\<lparr> files = {''out/x_h000_p+00.jpg''}, calls = [] \<rparr>"
  let ?h = "download_location_hires test_env ''pano1'' ''x'' ''out'' (Some [0]) 0 90 3 empty_world"
  have d: "download_location_images test_env ?c 2 77 ''x'' ''out'' (Some [0]) 0 empty_world
           = (Inr [?r], ?w)"
    by (simp add: download_location_images_def headings_or_default_def download_image_def
        test_env_def image_response_def raise_for_status_def test_filenames path_join_def
        Let_def)
  have f3: "find_panorama_by_id test_env (calls empty_world) ''pano1'' = Inr (Some test_pano)"
    and g3: "get_panorama test_env (calls empty_world @ [FindPanorama ''pano1'']) test_pano 3
            = Inr (Some (test_image 8 4))"
    by (simp_all add: test_env_def)
  have hf: "fst ?h = [image_success 3 4 0 0 ''out/x_h000_p+00.jpg'']"
    using hires_stage_two [OF f3 g3, of "''x''" "''out''" "Some [0]" 0 90]
    by (simp add: headings_or_default_def test_hires_results)
  have pm: "\<not> pano_missing (loc_pano_id ?row)"
    by (simp add: pano_missing_def test_location_def)
  from output_filename [where heading = 5 and pitch = "- 10" and location_id = "''x''"]
  have a: "image_filename ''x'' 5 (- 10) = ''x_h005_p-10.jpg''"
    by (simp add: digit_char_def)
  note t = output_filename [where pitch = 0 and location_id = "''x''" and od = "''out''"
      and hs = "[0]" and e = test_env and c = ?c and lat = 2 and lon = 77 and hso = "Some [0]"
      and w = empty_world and rs = "[?r]" and ?w1.0 = ?w and pid = "''pano1''"
      and fov = 90 and zoom = 3 and row = ?row and heading = 0]
  note u = output_filename [where pitch = 0 and location_id = "''x''" and od = "''out''"
      and hs = "[0]" and e = test_env and c = ?c and lat = 2 and lon = 77 and hso = "Some [0]"
      and w = ?wf and rs = "[?r]" and ?w1.0 = ?w and pid = "''pano1''"
      and fov = 90 and zoom = 3 and row = ?row and heading = 0]
  note t3 = t [THEN conjunct2, THEN conjunct2, THEN conjunct1]
  note t4 = t [THEN conjunct2, THEN conjunct2, THEN conjunct2, THEN conjunct1]
  note t6 = t [THEN conjunct2, THEN conjunct2, THEN conjunct2, THEN conjunct2, THEN conjunct2,
      THEN conjunct1]
  note t7 = t [THEN conjunct2, THEN conjunct2, THEN conjunct2, THEN conjunct2, THEN conjunct2,
      THEN conjunct2, THEN conjunct1]
  note t8 = t [THEN conjunct2, THEN conjunct2, THEN conjunct2, THEN conjunct2, THEN conjunct2,
      THEN conjunct2, THEN conjunct2, THEN conjunct1]
  note u8 = u [THEN conjunct2, THEN conjunct2, THEN conjunct2, THEN conjunct2, THEN conjunct2,
      THEN conjunct2, THEN conjunct2, THEN conjunct1]
  note u9 = u [THEN conjunct2, THEN conjunct2, THEN conjunct2, THEN conjunct2, THEN conjunct2,
      THEN conjunct2, THEN conjunct2, THEN conjunct2, THEN conjunct1]
  note t10 = t [THEN conjunct2, THEN conjunct2, THEN conjunct2, THEN conjunct2, THEN conjunct2,
      THEN conjunct2, THEN conjunct2, THEN conjunct2, THEN conjunct2]
  have n: "path_join ''out'' (image_filename ''x'' 0 0) = ''out/x_h000_p+00.jpg''"
    by (simp add: test_filenames path_join_def)
  have id: "loc_location_id ?row = ''x''" by (simp add: test_location_def)
  have b: "expected_files ''out'' ''x'' 0 [0] = [''out/x_h000_p+00.jpg'']"
    using t3 by (simp add: n)
  have c4: "''out/x_h000_p+00.jpg'' \<in> files ?w"
    using t4 d by (simp add: headings_or_default_def image_success_def n)
  have e6: "''out/x_h000_p+00.jpg'' \<in> files (snd ?h)"
    using t6 by (simp add: hf headings_or_default_def image_success_def n)
  have f7: "files (snd ?h) \<subseteq> {''out/x_h000_p+00.jpg''}"
    using t7 by (simp add: headings_or_default_def n empty_world_def)
  have g8: "images_batch_row test_env ?c ''out'' [0] 0 True ?row ?wf
            = (Inr (skip_records ?row ''out'' 0 [0]), ?wf)"
    using u8 by (simp add: id n)
  have h9: "hires_batch_row test_env ''out'' [0] 0 90 3 True ?row ?wf
            = (skip_records ?row ''out'' 0 [0], ?wf)"
    using u9 pm by (simp add: id n)
  have g8n: "images_batch_row test_env ?c ''out'' [0] 0 True ?row empty_world
            \<noteq> (Inr (skip_records ?row ''out'' 0 [0]), empty_world)"
    using t8 by (simp add: id n empty_world_def)
  have i10: "map dl_image_path (skip_records ?row ''out'' 0 [0]) = [Some ''out/x_h000_p+00.jpg'']"
    using t10 by (simp add: id n)
  have c: "\<exists>rs w1. download_location_images test_env ?c 2 77 ''x'' ''out'' (Some [0]) 0 empty_world
                     = (Inr rs, w1)
          \<and> map ir_success rs = [True]
          \<and> map ir_image_path rs = [Some ''out/x_h000_p+00.jpg'']
          \<and> ''out/x_h000_p+00.jpg'' \<in> files w1"
    using d c4 by (intro exI [of _ "[?r]"] exI [of _ ?w]) (simp add: image_success_def)
  have hs: "map ir_success (fst ?h) = [True]"
    "map ir_image_path (fst ?h) = [Some ''out/x_h000_p+00.jpg'']"
    by (simp_all add: hf image_success_def)
  show ?thesis
    using a b c hs e6 f7 pm g8 h9 g8n i10 by (intro conjI)
qed

text \<open>
  Claim C10: in the high-resolution path, when the panorama identifier is missing or
  empty (batch layer), when the identifier cannot be resolved (the lookup raises or finds
  nothing) or when the bitmap cannot be fetched (the fetch raises or returns nothing), the
  results are one failure per requested heading, all with the same error message, and the
  set of files is unchanged. When both succeed, the result list is the per-heading result
  \<open>hires_result\<close> mapped over the headings: the result of a heading is a success exactly
  when the crop and the write of that heading succeed, whatever happened to the others.
\<close>

theorem hires_failure_modes:
  "(pano_missing (loc_pano_id row) \<longrightarrow>
      hires_batch_row e od hs p fov zoom sk row w = (no_pano_records row p hs, w)
      \<and> map dl_error (no_pano_records row p hs) = map (\<lambda>h. Some ''No pano_id available'') hs
      \<and> map dl_success (no_pano_records row p hs) = map (\<lambda>h. False) hs)
   \<and> (find_panorama_by_id e (calls w) pid = Inl x \<longrightarrow>
        (\<exists>w1. download_location_hires e pid lid od hso p fov zoom w
               = (map (\<lambda>h. image_failure 0 0 h p (exn_str x)) (headings_or_default hso), w1)
             \<and> files w1 = files w))
   \<and> (find_panorama_by_id e (calls w) pid = Inr None \<longrightarrow>
        (\<exists>w1. download_location_hires e pid lid od hso p fov zoom w
               = (map (\<lambda>h. image_failure 0 0 h p (''Panorama not found: '' @ pid))
                    (headings_or_default hso), w1)
             \<and> files w1 = files w))
   \<and> (find_panorama_by_id e (calls w) pid = Inr (Some pano)
        \<and> get_panorama e (calls w @ [FindPanorama pid]) pano zoom = Inl x \<longrightarrow>
        (\<exists>w1. download_location_hires e pid lid od hso p fov zoom w
               = (map (\<lambda>h. image_failure 0 0 h p (exn_str x)) (headings_or_default hso), w1)
             \<and> files w1 = files w))
   \<and> (find_panorama_by_id e (calls w) pid = Inr (Some pano)
        \<and> get_panorama e (calls w @ [FindPanorama pid]) pano zoom = Inr None \<longrightarrow>
        (\<exists>w1. download_location_hires e pid lid od hso p fov zoom w
               = (map (\<lambda>h. image_failure (pano_lat pano) (pano_lon pano) h p
                              ''Failed to download panorama'') (headings_or_default hso), w1)
             \<and> files w1 = files w))
   \<and> (find_panorama_by_id e (calls w) pid = Inr (Some pano)
        \<and> get_panorama e (calls w @ [FindPanorama pid]) pano zoom = Inr (Some img) \<longrightarrow>
        fst (download_location_hires e pid lid od hso p fov zoom w)
          = map (hires_result e pano img lid od p fov) (headings_or_default hso)
        \<and> (\<forall>h. ir_success (hires_result e pano img lid od p fov h)
                 = ((\<exists>c. crop_panorama img h p fov = Inr c)
                    \<and> write_file e (expected_file od lid p h) = None))
        \<and> (\<forall>h. ir_heading (hires_result e pano img lid od p fov h) = h))"
proof -
  have a: "map dl_error (no_pano_records row p hs) = map (\<lambda>h. Some ''No pano_id available'') hs"
    "map dl_success (no_pano_records row p hs) = map (\<lambda>h. False) hs"
    by (simp_all add: no_pano_records_def comp_def)
  have h: "ir_heading (hires_result e pano img lid od p fov h) = h" for h
    by (simp add: hires_result_def Let_def image_failure_def image_success_def
        split: sum.splits option.splits)
  show ?thesis
    using a h
    by (simp add: no_pano_row hires_find_raises hires_find_none hires_get_raises hires_get_none
        hires_stage_two hires_result_success)
qed

text \<open>
  Witness for C10: the test environment: a location without identifier; the identifiers
  \<open>''other''\<close> (lookup raises) and \<open>''gone''\<close> (not found); zoom 9 (fetch raises) and zoom 8
  (no bitmap); and \<open>''pano1''\<close> at zoom 3 for location \<open>''b''\<close>, where heading 0 is saved
  and heading 90 cannot be written.
\<close>

theorem hires_failure_modes_witness:
  "hires_batch_row test_env ''out'' [0, 90] 0 90 3 True (test_location ''a'' 1 None) empty_world
     = (no_pano_records (test_location ''a'' 1 None) 0 [0, 90], empty_world)
   \<and> map dl_error (no_pano_records (test_location ''a'' 1 None) 0 [0, 90])
       = [Some ''No pano_id available'', Some ''No pano_id available'']
   \<and> fst (download_location_hires test_env ''other'' ''b'' ''out'' (Some [0, 90]) 0 90 3 empty_world)
       = [image_failure 0 0 0 0 ''lookup failed'', image_failure 0 0 90 0 ''lookup failed'']
   \<and> fst (download_location_hires test_env ''gone'' ''b'' ''out'' (Some [0, 90]) 0 90 3 empty_world)
       = [image_failure 0 0 0 0 ''Panorama not found: gone'',
          image_failure 0 0 90 0 ''Panorama not found: gone'']
   \<and> fst (download_location_hires test_env ''pano1'' ''b'' ''out'' (Some [0, 90]) 0 90 9 empty_world)
       = [image_failure 0 0 0 0 ''zoom not available'',
          image_failure 0 0 90 0 ''zoom not available'']
   \<and> fst (download_location_hires test_env ''pano1'' ''b'' ''out'' (Some [0, 90]) 0 90 8 empty_world)
       = [image_failure 3 4 0 0 ''Failed to download panorama'',
          image_failure 3 4 90 0 ''Failed to download panorama'']
   \<and> fst (download_location_hires test_env ''pano1'' ''b'' ''out'' (Some [0, 90]) 0 90 3 empty_world)
       = [image_success 3 4 0 0 ''out/b_h000_p+00.jpg'',
          image_failure 3 4 90 0 ''No space left on device'']"
proof -
  let ?row = "test_location ''a'' 1 None"
  have m: "pano_missing (loc_pano_id ?row)"
    by (simp add: pano_missing_def test_location_def)
  have f1: "find_panorama_by_id test_env (calls empty_world) ''other''
            = Inl (OtherException ''lookup failed'')"
    and f2: "find_panorama_by_id test_env (calls empty_world) ''gone'' = Inr None"
    and f3: "find_panorama_by_id test_env (calls empty_world) ''pano1'' = Inr (Some test_pano)"
    by (simp_all add: test_env_def)
  have g9: "get_panorama test_env (calls empty_world @ [FindPanorama ''pano1'']) test_pano 9
            = Inl (OtherException ''zoom not available'')"
    and g8: "get_panorama test_env (calls empty_world @ [FindPanorama ''pano1'']) test_pano 8
            = Inr None"
    and g3: "get_panorama test_env (calls empty_world @ [FindPanorama ''pano1'']) test_pano 3
            = Inr (Some (test_image 8 4))"
    by (simp_all add: test_env_def)
  have a: "hires_batch_row test_env ''out'' [0, 90] 0 90 3 True ?row empty_world
             = (no_pano_records ?row 0 [0, 90], empty_world)"
    "map dl_error (no_pano_records ?row 0 [0, 90])
       = [Some ''No pano_id available'', Some ''No pano_id available'']"
    using hires_failure_modes [where row = "test_location ''a'' 1 None" and e = test_env and od = "''out''"
      and hs = "[0, 90]" and p = 0 and fov = 90 and zoom = 3 and sk = True and w = empty_world
      and pid = "''pano1''" and x = "OtherException ''lookup failed''" and lid = "''b''"
      and hso = "Some [0, 90]" and pano = test_pano and img = "test_image 8 4"] m by simp_all
  have b: "fst (download_location_hires test_env ''other'' ''b'' ''out'' (Some [0, 90]) 0 90 3
                  empty_world)
           = [image_failure 0 0 0 0 ''lookup failed'', image_failure 0 0 90 0 ''lookup failed'']"
    using hires_failure_modes [where row = "test_location ''a'' 1 None" and e = test_env and od = "''out''"
      and hs = "[0, 90]" and p = 0 and fov = 90 and zoom = 3 and sk = True and w = empty_world
      and pid = "''other''" and x = "OtherException ''lookup failed''" and lid = "''b''"
      and hso = "Some [0, 90]" and pano = test_pano and img = "test_image 8 4"] f1 by (auto simp: headings_or_default_def)
  have c: "fst (download_location_hires test_env ''gone'' ''b'' ''out'' (Some [0, 90]) 0 90 3
                  empty_world)
           = [image_failure 0 0 0 0 ''Panorama not found: gone'',
              image_failure 0 0 90 0 ''Panorama not found: gone'']"
    using hires_failure_modes [where row = "test_location ''a'' 1 None" and e = test_env and od = "''out''"
      and hs = "[0, 90]" and p = 0 and fov = 90 and zoom = 3 and sk = True and w = empty_world
      and pid = "''gone''" and x = "OtherException ''lookup failed''" and lid = "''b''"
      and hso = "Some [0, 90]" and pano = test_pano and img = "test_image 8 4"] f2 by (auto simp: headings_or_default_def)
  have d: "fst (download_location_hires test_env ''pano1'' ''b'' ''out'' (Some [0, 90]) 0 90 9
                  empty_world)
           = [image_failure 0 0 0 0 ''zoom not available'',
              image_failure 0 0 90 0 ''zoom not available'']"
    using hires_failure_modes [where row = "test_location ''a'' 1 None" and e = test_env and od = "''out''"
      and hs = "[0, 90]" and p = 0 and fov = 90 and zoom = 9 and sk = True and w = empty_world
      and pid = "''pano1''" and x = "OtherException ''zoom not available''" and lid = "''b''"
      and hso = "Some [0, 90]" and pano = test_pano and img = "test_image 8 4"] f3 g9 by (auto simp: headings_or_default_def)
  have e: "fst (download_location_hires test_env ''pano1'' ''b'' ''out'' (Some [0, 90]) 0 90 8
                  empty_world)
           = [image_failure 3 4 0 0 ''Failed to download panorama'',
              image_failure 3 4 90 0 ''Failed to download panorama'']"
    using hires_failure_modes [where row = "test_location ''a'' 1 None" and e = test_env and od = "''out''"
      and hs = "[0, 90]" and p = 0 and fov = 90 and zoom = 8 and sk = True and w = empty_world
      and pid = "''pano1''" and x = "OtherException ''zoom not available''" and lid = "''b''"
      and hso = "Some [0, 90]" and pano = test_pano and img = "test_image 8 4"] f3 g8 by (auto simp: headings_or_default_def test_pano_def)
  have f: "fst (download_location_hires test_env ''pano1'' ''b'' ''out'' (Some [0, 90]) 0 90 3
                  empty_world)
           = [image_success 3 4 0 0 ''out/b_h000_p+00.jpg'',
              image_failure 3 4 90 0 ''No space left on device'']"
    using hires_failure_modes [where row = "test_location ''a'' 1 None" and e = test_env and od = "''out''"
      and hs = "[0, 90]" and p = 0 and fov = 90 and zoom = 3 and sk = True and w = empty_world
      and pid = "''pano1''" and x = "OtherException ''zoom not available''" and lid = "''b''"
      and hso = "Some [0, 90]" and pano = test_pano and img = "test_image 8 4"] f3 g3 by (simp add: headings_or_default_def test_hires_results)
  show ?thesis using a b c d e f by simp
qed

end
